theory Spec2Isabelle
  imports Main "HOL-Library.Word"
begin

section \<open>Values, maps and the heap\<close>

text \<open>
  A Go map is a reference: two variables holding the same map see each other's writes.
  A map value is therefore \<open>None\<close> (the nil map) or the address of a map object, and the
  map objects live in a heap. \<open>make(MetaData)\<close> allocates the next address; nothing is ever freed.
  A value of type \<open>any\<close> is nil, a string, an int, a bool, a map of the named type
  \<open>MetaData\<close>, or a map of the unnamed type \<open>map[string]interface{}\<close> (which a type
  assertion to \<open>MetaData\<close> rejects).
\<close>

type_synonym addr = nat

type_synonym MetaData = "addr option"

datatype any = ANil | AStr string | AInt int | ABool bool | AMetaData MetaData | AMap "addr option"

type_synonym Fields = "string \<rightharpoonup> any"

type_synonym heap = "Fields list"

definition map_at :: "heap \<Rightarrow> addr \<Rightarrow> Fields" where
  "map_at h a = (if a < length h then h ! a else Map.empty)"

text \<open>\<open>make(MetaData)\<close>: a fresh empty map object.\<close>

definition make_MetaData :: "heap \<Rightarrow> heap \<times> addr" where
  "make_MetaData h = (h @ [Map.empty], length h)"

text \<open>\<open>m[k] = v\<close> on the map object at \<open>m\<close>.\<close>

definition store :: "heap \<Rightarrow> addr \<Rightarrow> string \<Rightarrow> any \<Rightarrow> heap" where
  "store h m k v = h[m := (map_at h m)(k \<mapsto> v)]"

text \<open>
  \<open>for k, v := range src { dst[k] = v }\<close>. The keys of a map are distinct, so the order
  of the iteration does not show in the result.
\<close>

definition copy_into :: "heap \<Rightarrow> addr \<Rightarrow> addr \<Rightarrow> heap" where
  "copy_into h dst src = h[dst := map_at h dst ++ map_at h src]"

section \<open>Context keys and contexts\<close>

text \<open>
  A key of the library has the private type \<open>contextKey\<close>; a key of any other type never
  equals one, whatever its string. A context is the root or one binding layered over a
  parent (\<open>context.WithValue\<close>); \<open>Value\<close> searches from the innermost binding outward and
  yields nil when nothing is found. Contexts that carry a deadline or a cancellation
  pass \<open>Value\<close> on to their parent and so read like it. A \<open>context.Context\<close> is never
  the nil interface here: the context package requires that of every caller.
\<close>

datatype key = ContextKey string | ForeignKey string

definition RequestIDKey :: key where "RequestIDKey = ContextKey ''request_id''"
definition UserIDKey :: key where "UserIDKey = ContextKey ''user_id''"
definition TraceIDKey :: key where "TraceIDKey = ContextKey ''trace_id''"
definition SpanIDKey :: key where "SpanIDKey = ContextKey ''span_id''"
definition CustomFieldsKey :: key where "CustomFieldsKey = ContextKey ''custom_fields''"

lemmas key_defs = RequestIDKey_def UserIDKey_def TraceIDKey_def SpanIDKey_def CustomFieldsKey_def

fun key_string :: "key \<Rightarrow> string" where
  "key_string (ContextKey s) = s"
| "key_string (ForeignKey s) = s"

datatype ctx = Background | WithValue ctx key any

fun Value :: "ctx \<Rightarrow> key \<Rightarrow> any" where
  "Value Background k = ANil"
| "Value (WithValue parent k' v) k = (if k' = k then v else Value parent k)"

text \<open>The type assertions \<open>x.(string)\<close> and \<open>x.(MetaData)\<close> in their two-result form.\<close>

fun assert_string :: "any \<Rightarrow> string \<times> bool" where
  "assert_string (AStr s) = (s, True)"
| "assert_string _ = ('''', False)"

fun assert_MetaData :: "any \<Rightarrow> MetaData \<times> bool" where
  "assert_MetaData (AMetaData m) = (m, True)"
| "assert_MetaData _ = (None, False)"

text \<open>The dynamic type of a value is the one the assertion asks for.\<close>

fun is_string :: "any \<Rightarrow> bool" where
  "is_string (AStr s) = True"
| "is_string _ = False"

fun is_MetaData :: "any \<Rightarrow> bool" where
  "is_MetaData (AMetaData m) = True"
| "is_MetaData _ = False"

definition WithRequestID :: "ctx \<Rightarrow> string \<Rightarrow> ctx" where
  "WithRequestID c reqID = WithValue c RequestIDKey (AStr reqID)"

definition WithUserID :: "ctx \<Rightarrow> string \<Rightarrow> ctx" where
  "WithUserID c userID = WithValue c UserIDKey (AStr userID)"

definition WithTraceID :: "ctx \<Rightarrow> string \<Rightarrow> ctx" where
  "WithTraceID c traceID = WithValue c TraceIDKey (AStr traceID)"

definition WithSpanID :: "ctx \<Rightarrow> string \<Rightarrow> ctx" where
  "WithSpanID c spanID = WithValue c SpanIDKey (AStr spanID)"

text \<open>
  \<open>WithCustomField\<close> allocates in both branches: an empty map when no usable bag is
  bound, a copy of the bound bag otherwise. The new entry is written into the new map
  only.
\<close>

definition WithCustomField :: "heap \<Rightarrow> ctx \<Rightarrow> string \<Rightarrow> any \<Rightarrow> heap \<times> ctx" where
  "WithCustomField h c k v =
     (let (fields, ok) = assert_MetaData (Value c CustomFieldsKey) in
      case (if \<not> ok then None else fields) of
        None \<Rightarrow>
          (let (h1, m) = make_MetaData h;
               h2 = store h1 m k v
           in (h2, WithValue c CustomFieldsKey (AMetaData (Some m))))
      | Some old \<Rightarrow>
          (let (h1, newFields) = make_MetaData h;
               h2 = copy_into h1 newFields old;
               h3 = store h2 newFields k v
           in (h3, WithValue c CustomFieldsKey (AMetaData (Some newFields)))))"

definition GetRequestID :: "ctx \<Rightarrow> string \<times> bool" where
  "GetRequestID c = assert_string (Value c RequestIDKey)"

definition GetUserID :: "ctx \<Rightarrow> string \<times> bool" where
  "GetUserID c = assert_string (Value c UserIDKey)"

definition GetTraceID :: "ctx \<Rightarrow> string \<times> bool" where
  "GetTraceID c = assert_string (Value c TraceIDKey)"

definition GetSpanID :: "ctx \<Rightarrow> string \<times> bool" where
  "GetSpanID c = assert_string (Value c SpanIDKey)"

definition GetCustomFields :: "ctx \<Rightarrow> MetaData \<times> bool" where
  "GetCustomFields c = assert_MetaData (Value c CustomFieldsKey)"

lemmas Get_defs = GetRequestID_def GetUserID_def GetTraceID_def GetSpanID_def GetCustomFields_def

lemmas With_defs = WithRequestID_def WithUserID_def WithTraceID_def WithSpanID_def

text \<open>Reading a map value: a nil map reads as empty, as indexing a nil map does in Go.\<close>

definition entries :: "heap \<Rightarrow> MetaData \<Rightarrow> Fields" where
  "entries h m = (case m of None \<Rightarrow> Map.empty | Some a \<Rightarrow> map_at h a)"

text \<open>The bag a context yields through \<open>GetCustomFields\<close>, read in a heap.\<close>

definition bag :: "heap \<Rightarrow> ctx \<Rightarrow> Fields" where
  "bag h c = entries h (fst (GetCustomFields c))"

text \<open>A key is bound in a context when some binding of the chain carries it.\<close>

fun bound :: "key \<Rightarrow> ctx \<Rightarrow> bool" where
  "bound k Background = False"
| "bound k (WithValue parent k' v) = (k' = k \<or> bound k parent)"

text \<open>The map a context's bag refers to has been allocated in the heap.\<close>

definition allocated :: "heap \<Rightarrow> ctx \<Rightarrow> bool" where
  "allocated h c = (case fst (GetCustomFields c) of None \<Rightarrow> True | Some a \<Rightarrow> a < length h)"

section \<open>Sequences of With calls\<close>

datatype with_call =
    CallRequestID string
  | CallUserID string
  | CallTraceID string
  | CallSpanID string
  | CallCustomField string any

fun call :: "heap \<Rightarrow> ctx \<Rightarrow> with_call \<Rightarrow> heap \<times> ctx" where
  "call h c (CallRequestID s) = (h, WithRequestID c s)"
| "call h c (CallUserID s) = (h, WithUserID c s)"
| "call h c (CallTraceID s) = (h, WithTraceID c s)"
| "call h c (CallSpanID s) = (h, WithSpanID c s)"
| "call h c (CallCustomField k v) = WithCustomField h c k v"

fun calls :: "heap \<Rightarrow> ctx \<Rightarrow> with_call list \<Rightarrow> heap \<times> ctx" where
  "calls h c [] = (h, c)"
| "calls h c (x # xs) = (case call h c x of (h', c') \<Rightarrow> calls h' c' xs)"

text \<open>
  What a sequence of calls binds, read off the calls alone: the last id of each kind,
  and the custom entries with a later one replacing an earlier one of the same name.
\<close>

fun last_id :: "(with_call \<Rightarrow> string option) \<Rightarrow> with_call list \<Rightarrow> string option" where
  "last_id sel [] = None"
| "last_id sel (x # xs) = (case last_id sel xs of Some s \<Rightarrow> Some s | None \<Rightarrow> sel x)"

fun request_of :: "with_call \<Rightarrow> string option" where
  "request_of (CallRequestID s) = Some s" | "request_of _ = None"

fun user_of :: "with_call \<Rightarrow> string option" where
  "user_of (CallUserID s) = Some s" | "user_of _ = None"

fun trace_of :: "with_call \<Rightarrow> string option" where
  "trace_of (CallTraceID s) = Some s" | "trace_of _ = None"

fun span_of :: "with_call \<Rightarrow> string option" where
  "span_of (CallSpanID s) = Some s" | "span_of _ = None"

fun custom_of :: "with_call list \<Rightarrow> Fields" where
  "custom_of [] = Map.empty"
| "custom_of (CallCustomField k v # xs) = [k \<mapsto> v] ++ custom_of xs"
| "custom_of (_ # xs) = custom_of xs"

fun is_custom :: "with_call \<Rightarrow> bool" where
  "is_custom (CallCustomField k v) = True" | "is_custom _ = False"

text \<open>What the id reader yields after the calls: the last id bound, else the parent's.\<close>

definition layered :: "string option \<Rightarrow> string \<times> bool \<Rightarrow> string \<times> bool" where
  "layered added parent = (case added of Some s \<Rightarrow> (s, True) | None \<Rightarrow> parent)"

text \<open>Everything the five readers show of a context, the bag read in the heap.\<close>

definition reads :: "heap \<Rightarrow> ctx \<Rightarrow> (string \<times> bool) \<times> (string \<times> bool) \<times> (string \<times> bool) \<times> (string \<times> bool) \<times> (MetaData \<times> bool) \<times> Fields" where
  "reads h c = (GetRequestID c, GetUserID c, GetTraceID c, GetSpanID c, GetCustomFields c, bag h c)"

section \<open>Configuration\<close>

text \<open>
  \<open>logrus.Level\<close> is a \<open>uint32\<close>; the engine numbers the levels from the most severe
  (panic, 0) to the least (trace, 6).
\<close>

type_synonym Level = "32 word"

definition PanicLevel :: Level where "PanicLevel = 0"
definition FatalLevel :: Level where "FatalLevel = 1"
definition ErrorLevel :: Level where "ErrorLevel = 2"
definition WarnLevel :: Level where "WarnLevel = 3"
definition InfoLevel :: Level where "InfoLevel = 4"
definition DebugLevel :: Level where "DebugLevel = 5"
definition TraceLevel :: Level where "TraceLevel = 6"

lemmas Level_defs = PanicLevel_def FatalLevel_def ErrorLevel_def WarnLevel_def InfoLevel_def
  DebugLevel_def TraceLevel_def

type_synonym LogFormat = string

definition FormatText :: LogFormat where "FormatText = ''text''"
definition FormatJSON :: LogFormat where "FormatJSON = ''json''"

text \<open>
  An output target is an \<open>io.Writer\<close>: nil (the zero value of the interface, which a
  configuration has when its \<open>Output\<close> is not set), one of the two standard streams, the
  handle of an opened file, or a writer of the caller's own, whose \<open>Write\<close> is taken to
  return.
\<close>

datatype Writer = NilWriter | Stdout | Stderr | FileHandle string | UserWriter nat

record Config =
  Level :: Level
  Format :: LogFormat
  Output :: Writer
  FilePath :: string
  EnableJSON :: bool
  JSONPretty :: bool
  ReportCaller :: bool
  TimestampFormat :: string

definition DefaultConfig :: Config where
  "DefaultConfig =
     \<lparr>Level = InfoLevel, Format = FormatJSON, Output = Stdout, FilePath = '''',
      EnableJSON = False, JSONPretty = False, ReportCaller = True,
      TimestampFormat = ''2006/01/02 15:04:05.000''\<rparr>"

section \<open>The logging engine\<close>

text \<open>
  The engine is the external collaborator of the facade. Its state is what the facade
  sets: the output sink, the renderer, the hooks and the severity threshold. A renderer is
  the JSON formatter (timestamp format, DisableTimestamp, DisableHTMLEscape, PrettyPrint)
  or the text formatter (FullTimestamp, timestamp format, ForceColors, DisableColors).
\<close>

datatype Formatter =
    JSONFormatter string bool bool bool
  | TextFormatter bool string bool bool

fun is_JSON :: "Formatter \<Rightarrow> bool" where
  "is_JSON (JSONFormatter ts dt he pp) = True"
| "is_JSON (TextFormatter ft ts fc dc) = False"

record CallerHook =
  SkipFrames :: int

record Engine =
  Out :: Writer
  Formatter :: Formatter
  Hooks :: "CallerHook list"
  level :: Level

record Entry =
  Data :: Fields
  Context :: "ctx option"
  entryLevel :: Level
  Message :: string

text \<open>
  What \<open>runtime.Caller\<close> and \<open>runtime.FuncForPC(pc).Name()\<close> report of one stack frame:
  the file, the line and the qualified name of the function (empty when unknown).
\<close>

record Frame =
  frame_file :: string
  frame_line :: int
  frame_func :: string

text \<open>
  The surroundings of a call: the engine that \<open>logrus.New()\<close> hands out, the answer of
  \<open>os.OpenFile\<close> for a path (an error text or the handle), and the answer of
  \<open>runtime.Caller\<close> for a number of frames to skip (no frame when the stack is too
  shallow).
\<close>

record Env =
  logrus_New :: Engine
  os_OpenFile :: "string \<Rightarrow> string + Writer"
  runtime_Caller :: "int \<Rightarrow> Frame option"

section \<open>The caller hook\<close>

definition CallerFileFieldKey :: string where "CallerFileFieldKey = ''file''"
definition CallerFuncFieldKey :: string where "CallerFuncFieldKey = ''func''"
definition EchoCallerSkipFrames :: int where "EchoCallerSkipFrames = 9"
definition CallerSkipFrames :: int where "CallerSkipFrames = EchoCallerSkipFrames"

definition NewCallerHook :: "int \<Rightarrow> CallerHook" where
  "NewCallerHook skipFrames = \<lparr>SkipFrames = skipFrames\<rparr>"

text \<open>
  \<open>strings.LastIndex(s, sep)\<close> for a separator of one byte: the index of the last
  occurrence, or -1. The scan keeps the last index seen.
\<close>

fun last_seen :: "string \<Rightarrow> char \<Rightarrow> nat \<Rightarrow> int \<Rightarrow> int" where
  "last_seen [] sep i found = found"
| "last_seen (x # xs) sep i found = last_seen xs sep (Suc i) (if x = sep then int i else found)"

definition LastIndex :: "string \<Rightarrow> char \<Rightarrow> int" where
  "LastIndex s sep = last_seen s sep 0 (- 1)"

text \<open>The verb \<open>%d\<close> of \<open>fmt.Sprintf\<close>: an integer in decimal.\<close>

definition digit :: "nat \<Rightarrow> char" where
  "digit d = ''0123456789'' ! d"

function decimal :: "nat \<Rightarrow> string" where
  "decimal n = (if n < 10 then [digit n] else decimal (n div 10) @ [digit (n mod 10)])"
  by pat_completeness auto
termination
  by (relation "measure id") auto

declare decimal.simps [simp del]

definition Sprintf_d :: "int \<Rightarrow> string" where
  "Sprintf_d i = (if i < 0 then CHR ''-'' # decimal (nat (- i)) else decimal (nat i))"

text \<open>
  \<open>Fire\<close> returns the entry (its \<open>Data\<close> written in place in the source) and the error,
  which is nil on both paths.
\<close>

definition Fire :: "Env \<Rightarrow> CallerHook \<Rightarrow> Entry \<Rightarrow> Entry \<times> string option" where
  "Fire env hook entry =
     (case runtime_Caller env (SkipFrames hook) of
        None \<Rightarrow> (entry, None)
      | Some fr \<Rightarrow>
          (let funcName = frame_func fr;
               lastSlash = LastIndex funcName CHR ''/'';
               funcName = (if lastSlash \<noteq> - 1 then drop (nat (lastSlash + 1)) funcName else funcName);
               lastDot = LastIndex funcName CHR ''.'';
               funcName = (if lastDot \<noteq> - 1 then drop (nat (lastDot + 1)) funcName else funcName);
               data = (Data entry)(CallerFileFieldKey \<mapsto>
                         AStr (''file://'' @ frame_file fr @ '':'' @ Sprintf_d (frame_line fr)));
               data = data(CallerFuncFieldKey \<mapsto> AStr (funcName @ ''()''))
           in (entry\<lparr>Data := data\<rparr>, None)))"

text \<open>
  The reduction of a qualified name in the words of the specification: what follows the
  last separator, or the whole name when it has none.
\<close>

definition after_last :: "char \<Rightarrow> string \<Rightarrow> string" where
  "after_last sep s = rev (takeWhile (\<lambda>x. x \<noteq> sep) (rev s))"

definition bare_name :: "string \<Rightarrow> string" where
  "bare_name name = after_last CHR ''.'' (after_last CHR ''/'' name)"

text \<open>
  The line in decimal, in the words of the specification and apart from the printer
  above: a string is the decimal numeral of an integer when it is a minus sign for a
  negative integer followed by decimal digits, at least one and without a leading zero
  unless the digit stands alone, whose value read in base ten is the magnitude. There is
  one such string for each integer.
\<close>

definition digit_value :: "char \<Rightarrow> nat" where
  "digit_value c = of_char c - 48"

definition digits_value :: "string \<Rightarrow> nat" where
  "digits_value ds = foldl (\<lambda>a c. 10 * a + digit_value c) 0 ds"

definition is_digits :: "string \<Rightarrow> bool" where
  "is_digits ds =
     (ds \<noteq> [] \<and> list_all (\<lambda>c. c \<in> set ''0123456789'') ds \<and> (1 < length ds \<longrightarrow> hd ds \<noteq> CHR ''0''))"

definition is_decimal_of :: "int \<Rightarrow> string \<Rightarrow> bool" where
  "is_decimal_of i s =
     (if i < 0
      then (case s of [] \<Rightarrow> False
            | c # ds \<Rightarrow> c = CHR ''-'' \<and> is_digits ds \<and> int (digits_value ds) = - i)
      else is_digits s \<and> int (digits_value s) = i)"

text \<open>
  What the caller hooks of a logger add to a record, in the words of the specification:
  each hook that finds its frame sets \<open>file\<close> and \<open>func\<close> from it, a later hook over an
  earlier one; a hook that finds no frame adds nothing.
\<close>

definition caller_fields :: "Frame \<Rightarrow> Fields" where
  "caller_fields fr =
     [''file'' \<mapsto> AStr (''file://'' @ frame_file fr @ '':'' @ Sprintf_d (frame_line fr)),
      ''func'' \<mapsto> AStr (bare_name (frame_func fr) @ ''()'')]"

fun hooks_fields :: "Env \<Rightarrow> CallerHook list \<Rightarrow> Fields" where
  "hooks_fields env [] = Map.empty"
| "hooks_fields env (hook # hooks) =
     (case runtime_Caller env (SkipFrames hook) of
        None \<Rightarrow> Map.empty
      | Some fr \<Rightarrow> caller_fields fr) ++ hooks_fields env hooks"

section \<open>The engine's contract\<close>

text \<open>
  Modelled from the spec: the logging engine (logrus) is not part of the sources. Section 6
  requires of it (1) a settable severity threshold, (4) a hook invoked for each record that
  may attach fields before rendering, (5) a field-attachment method returning a derived
  record, and (6) fatal-level emission that terminates the process after writing. A record
  is enabled when its level is at or above the threshold in severity, which in the
  engine's numbering is at or below it in number.
\<close>

definition IsLevelEnabled :: "Engine \<Rightarrow> Level \<Rightarrow> bool" where
  "IsLevelEnabled e lvl = (lvl \<le> level e)"

text \<open>Modelled from the spec: \<open>Logger.WithContext\<close>, a record with no fields yet.\<close>

definition Logger_WithContext :: "Engine \<Rightarrow> ctx \<Rightarrow> Entry" where
  "Logger_WithContext e c = \<lparr>Data = Map.empty, Context = Some c, entryLevel = PanicLevel, Message = ''''\<rparr>"

text \<open>Modelled from the spec: \<open>Entry.WithField\<close>, the derived record with one more field.\<close>

definition WithField :: "Entry \<Rightarrow> string \<Rightarrow> any \<Rightarrow> Entry" where
  "WithField entry k v = entry\<lparr>Data := (Data entry)(k \<mapsto> v)\<rparr>"

text \<open>Modelled from the spec: the hooks of the engine run in turn on the record.\<close>

fun fire_hooks :: "Env \<Rightarrow> CallerHook list \<Rightarrow> Entry \<Rightarrow> Entry" where
  "fire_hooks env [] entry = entry"
| "fire_hooks env (hook # hooks) entry = fire_hooks env hooks (fst (Fire env hook entry))"

text \<open>
  What one logging call does: the record the engine hands to its sink (the sink, the
  renderer and the record after the hooks), if any, and whether the process is
  terminated.
\<close>

record Emission =
  target :: Writer
  renderer :: Formatter
  written :: Entry

record Outcome =
  emitted :: "Emission option"
  exited :: bool

text \<open>
  The engine hands a record over by calling \<open>Write\<close> on its sink. On the nil interface
  that call is a nil dereference: the logging call panics at the write and does not
  return.
\<close>

definition write_panics :: "Outcome \<Rightarrow> bool" where
  "write_panics out = (case emitted out of None \<Rightarrow> False | Some em \<Rightarrow> target em = NilWriter)"

text \<open>
  Modelled from the spec: \<open>Entry.Logf\<close> and the leveled methods of a record. A record
  below the threshold is suppressed; a fatal call terminates the process in either case.
\<close>

definition Logf :: "Env \<Rightarrow> Engine \<Rightarrow> Entry \<Rightarrow> Level \<Rightarrow> string \<Rightarrow> Emission option" where
  "Logf env e entry lvl msg =
     (if IsLevelEnabled e lvl
      then Some \<lparr>target = Out e, renderer = Formatter e,
                 written = fire_hooks env (Hooks e) (entry\<lparr>entryLevel := lvl, Message := msg\<rparr>)\<rparr>
      else None)"

definition Entry_Debugf :: "Env \<Rightarrow> Engine \<Rightarrow> Entry \<Rightarrow> string \<Rightarrow> Outcome" where
  "Entry_Debugf env e entry msg = \<lparr>emitted = Logf env e entry DebugLevel msg, exited = False\<rparr>"

definition Entry_Infof :: "Env \<Rightarrow> Engine \<Rightarrow> Entry \<Rightarrow> string \<Rightarrow> Outcome" where
  "Entry_Infof env e entry msg = \<lparr>emitted = Logf env e entry InfoLevel msg, exited = False\<rparr>"

definition Entry_Warnf :: "Env \<Rightarrow> Engine \<Rightarrow> Entry \<Rightarrow> string \<Rightarrow> Outcome" where
  "Entry_Warnf env e entry msg = \<lparr>emitted = Logf env e entry WarnLevel msg, exited = False\<rparr>"

definition Entry_Errorf :: "Env \<Rightarrow> Engine \<Rightarrow> Entry \<Rightarrow> string \<Rightarrow> Outcome" where
  "Entry_Errorf env e entry msg = \<lparr>emitted = Logf env e entry ErrorLevel msg, exited = False\<rparr>"

definition Entry_Fatalf :: "Env \<Rightarrow> Engine \<Rightarrow> Entry \<Rightarrow> string \<Rightarrow> Outcome" where
  "Entry_Fatalf env e entry msg = \<lparr>emitted = Logf env e entry FatalLevel msg, exited = True\<rparr>"

section \<open>The logger facade\<close>

text \<open>
  A \<open>LogrusLogger\<close> owns an engine and a snapshot of its configuration. The guard \<open>mu\<close>
  serialises the three setters; the calls are taken one at a time here.
\<close>

record LogrusLogger =
  Logger :: Engine
  config :: Config

text \<open>
  \<open>NewLogger\<close> fails with the error of \<open>os.OpenFile\<close> when a file path is set and the
  file cannot be opened; nothing else in it fails.
\<close>

definition NewLogger :: "Env \<Rightarrow> Config \<Rightarrow> string + LogrusLogger" where
  "NewLogger env cfg =
     (let l = logrus_New env;
          l = l\<lparr>level := Level cfg\<rparr>
      in case (if FilePath cfg \<noteq> ''''
               then (case os_OpenFile env (FilePath cfg) of
                       Inl err \<Rightarrow> Inl err
                     | Inr file \<Rightarrow> Inr (l\<lparr>Out := file\<rparr>))
               else Inr (l\<lparr>Out := Output cfg\<rparr>)) of
           Inl err \<Rightarrow> Inl err
         | Inr l \<Rightarrow>
             (let l = (if EnableJSON cfg \<or> Format cfg = FormatJSON
                       then l\<lparr>Formatter := JSONFormatter (TimestampFormat cfg) False True (JSONPretty cfg)\<rparr>
                       else l\<lparr>Formatter := TextFormatter True (TimestampFormat cfg) True False\<rparr>);
                  l = (if ReportCaller cfg
                       then l\<lparr>Hooks := Hooks l @ [NewCallerHook CallerSkipFrames]\<rparr>
                       else l)
              in Inr \<lparr>Logger = l, config = cfg\<rparr>))"






text \<open>
  The loop \<open>for k, v := range customFields { entry = entry.WithField(k, v) }\<close>: every
  entry of the map is attached, and since the keys of a map are distinct the order of
  the iteration does not show.
\<close>

definition range_WithField :: "Entry \<Rightarrow> Fields \<Rightarrow> Entry" where
  "range_WithField entry m = entry\<lparr>Data := Data entry ++ m\<rparr>"

definition addContextFields :: "heap \<Rightarrow> ctx \<Rightarrow> Entry \<Rightarrow> Entry" where
  "addContextFields h c entry =
     (let entry = (case GetRequestID c of (reqID, ok) \<Rightarrow>
                     if ok then WithField entry (key_string RequestIDKey) (AStr reqID) else entry);
          entry = (case GetUserID c of (userID, ok) \<Rightarrow>
                     if ok then WithField entry (key_string UserIDKey) (AStr userID) else entry);
          entry = (case GetTraceID c of (traceID, ok) \<Rightarrow>
                     if ok then WithField entry (key_string TraceIDKey) (AStr traceID) else entry);
          entry = (case GetSpanID c of (spanID, ok) \<Rightarrow>
                     if ok then WithField entry (key_string SpanIDKey) (AStr spanID) else entry);
          entry = (case GetCustomFields c of (customFields, ok) \<Rightarrow>
                     if ok then range_WithField entry (entries h customFields) else entry)
      in entry)"

definition DebugContextf :: "Env \<Rightarrow> heap \<Rightarrow> LogrusLogger \<Rightarrow> ctx \<Rightarrow> string \<Rightarrow> Outcome" where
  "DebugContextf env h l c msg =
     (let entry = Logger_WithContext (Logger l) c;
          entry = addContextFields h c entry
      in Entry_Debugf env (Logger l) entry msg)"

definition InfoContextf :: "Env \<Rightarrow> heap \<Rightarrow> LogrusLogger \<Rightarrow> ctx \<Rightarrow> string \<Rightarrow> Outcome" where
  "InfoContextf env h l c msg =
     (let entry = Logger_WithContext (Logger l) c;
          entry = addContextFields h c entry
      in Entry_Infof env (Logger l) entry msg)"

definition WarnContextf :: "Env \<Rightarrow> heap \<Rightarrow> LogrusLogger \<Rightarrow> ctx \<Rightarrow> string \<Rightarrow> Outcome" where
  "WarnContextf env h l c msg =
     (let entry = Logger_WithContext (Logger l) c;
          entry = addContextFields h c entry
      in Entry_Warnf env (Logger l) entry msg)"

definition ErrorContextf :: "Env \<Rightarrow> heap \<Rightarrow> LogrusLogger \<Rightarrow> ctx \<Rightarrow> string \<Rightarrow> Outcome" where
  "ErrorContextf env h l c msg =
     (let entry = Logger_WithContext (Logger l) c;
          entry = addContextFields h c entry
      in Entry_Errorf env (Logger l) entry msg)"

definition FatalContextf :: "Env \<Rightarrow> heap \<Rightarrow> LogrusLogger \<Rightarrow> ctx \<Rightarrow> string \<Rightarrow> Outcome" where
  "FatalContextf env h l c msg =
     (let entry = Logger_WithContext (Logger l) c;
          entry = addContextFields h c entry
      in Entry_Fatalf env (Logger l) entry msg)"


definition SetOutput :: "LogrusLogger \<Rightarrow> Writer \<Rightarrow> LogrusLogger" where
  "SetOutput l output =
     l\<lparr>Logger := (Logger l)\<lparr>Out := output\<rparr>,
       config := (config l)\<lparr>Output := output, FilePath := ''''\<rparr>\<rparr>"

definition SetFormatter :: "LogrusLogger \<Rightarrow> LogFormat \<Rightarrow> LogrusLogger" where
  "SetFormatter l format =
     (let cfg = (config l)\<lparr>Format := format\<rparr>
      in if format = FormatJSON
         then l\<lparr>Logger := (Logger l)\<lparr>Formatter := JSONFormatter (TimestampFormat cfg) False False (JSONPretty cfg)\<rparr>,
                config := cfg\<lparr>EnableJSON := True\<rparr>\<rparr>
         else l\<lparr>Logger := (Logger l)\<lparr>Formatter := TextFormatter True (TimestampFormat cfg) True False\<rparr>,
                config := cfg\<lparr>EnableJSON := False\<rparr>\<rparr>)"

text \<open>
  The attributes a context contributes to a record, in the words of the specification
  and with the order of the merge made explicit: each id that is bound, under its name,
  then every entry of the bag, a bag entry replacing an id of the same name.
\<close>

definition id_attribute :: "key \<Rightarrow> string \<times> bool \<Rightarrow> Fields" where
  "id_attribute k r = (if snd r then [key_string k \<mapsto> AStr (fst r)] else Map.empty)"

definition id_attributes :: "ctx \<Rightarrow> Fields" where
  "id_attributes c =
     id_attribute RequestIDKey (GetRequestID c) ++ id_attribute UserIDKey (GetUserID c)
     ++ id_attribute TraceIDKey (GetTraceID c) ++ id_attribute SpanIDKey (GetSpanID c)"

definition context_attributes :: "heap \<Rightarrow> ctx \<Rightarrow> Fields" where
  "context_attributes h c = id_attributes c ++ bag h c"

text \<open>
  The fields of the record a context-aware call hands to the sink: the attributes of the
  context, and over them what the hooks set.
\<close>

definition record_fields :: "Env \<Rightarrow> CallerHook list \<Rightarrow> heap \<Rightarrow> ctx \<Rightarrow> Fields" where
  "record_fields env hooks h c = context_attributes h c ++ hooks_fields env hooks"

text \<open>The field of the record a call handed over, if it did and the record has the field.\<close>

definition emitted_field :: "Outcome \<Rightarrow> string \<Rightarrow> any option" where
  "emitted_field out k = (case emitted out of None \<Rightarrow> None | Some em \<Rightarrow> Data (written em) k)"

text \<open>Severity: \<open>a\<close> is at or above \<open>b\<close>. The engine gives the more severe level the smaller number.\<close>

definition at_or_above :: "Level \<Rightarrow> Level \<Rightarrow> bool" where
  "at_or_above a b = (unat a \<le> unat b)"

section \<open>The global registry\<close>

text \<open>
  The state of the process that the registry touches: the singleton, the once gate, and
  the engine's own standard logger, which the fallback reconfigures and adopts. \<open>reported\<close>
  collects what the registry itself wrote.
\<close>

record World =
  globalLogger :: "LogrusLogger option"
  globalLoggerOnce :: bool
  standardLogger :: Engine
  reported :: "Emission list"

text \<open>
  A call of the registry returns, or panics on the way. The state it leaves behind is
  there in both cases.
\<close>

datatype 'a completion = Returned 'a | Panicked

text \<open>
  \<open>sync.Once.Do\<close>: the body runs unless the gate is already shut, and shuts it. The gate
  is shut by a deferred store, so it is shut as well when the body panics; the panic
  goes on to the caller.
\<close>

definition Once_Do :: "(World \<Rightarrow> World \<times> unit completion) \<Rightarrow> World \<Rightarrow> World \<times> unit completion" where
  "Once_Do f w =
     (if globalLoggerOnce w then (w, Returned ())
      else (case f w of (w', r) \<Rightarrow> (w'\<lparr>globalLoggerOnce := True\<rparr>, r)))"

text \<open>Modelled from the spec: a record of the engine's standard logger has no fields and no context.\<close>

definition NewEntry :: "Engine \<Rightarrow> Entry" where
  "NewEntry e = \<lparr>Data = Map.empty, Context = None, entryLevel = PanicLevel, Message = ''''\<rparr>"

text \<open>
  The fallback of both initialisers: the standard logger gets the configured output and
  the error level and reports the failure; then it becomes the engine of the singleton.
  When the configured output is nil the report panics at its write, after the standard
  logger has been reconfigured and before the singleton is assigned.
\<close>

definition fall_back :: "Env \<Rightarrow> Config \<Rightarrow> string \<Rightarrow> World \<Rightarrow> World \<times> unit completion" where
  "fall_back env cfg msg w =
     (let std = (standardLogger w)\<lparr>Out := Output cfg\<rparr>;
          std = std\<lparr>level := ErrorLevel\<rparr>;
          w = w\<lparr>standardLogger := std\<rparr>;
          out = Entry_Errorf env std (NewEntry std) msg
      in if write_panics out then (w, Panicked)
         else (w\<lparr>reported := reported w @ (case emitted out of None \<Rightarrow> [] | Some em \<Rightarrow> [em]),
                 globalLogger := Some \<lparr>Logger = std, config = cfg\<rparr>\<rparr>,
               Returned ()))"

definition InitGlobalLogger :: "Env \<Rightarrow> Config \<Rightarrow> World \<Rightarrow> World \<times> unit completion" where
  "InitGlobalLogger env cfg w =
     Once_Do (\<lambda>w. case NewLogger env cfg of
                Inl err \<Rightarrow>
                  fall_back env cfg
                    (''Failed to initialize custom logger: '' @ err @ ''. Falling back to basic logrus.'') w
              | Inr l \<Rightarrow> (w\<lparr>globalLogger := Some l\<rparr>, Returned ())) w"

text \<open>
  \<open>GetGlobalLogger\<close> returns the singleton as it stands after the gate, which is nil when
  the one initialisation panicked in an earlier call.
\<close>

definition GetGlobalLogger :: "Env \<Rightarrow> World \<Rightarrow> World \<times> LogrusLogger option completion" where
  "GetGlobalLogger env w =
     (case Once_Do (\<lambda>w. let cfg = DefaultConfig in
                  case NewLogger env cfg of
                    Inl err \<Rightarrow>
                      fall_back env cfg
                        (''Failed to initialize default global logger: '' @ err @ ''. Falling back to basic logrus.'') w
                  | Inr l \<Rightarrow> (w\<lparr>globalLogger := Some l\<rparr>, Returned ())) w of
        (w, Returned u) \<Rightarrow> (w, Returned (globalLogger w))
      | (w, Panicked) \<Rightarrow> (w, Panicked))"

section \<open>Concrete surroundings\<close>

text \<open>
  A process as it starts: an engine as the logging library creates one (standard error,
  the text renderer, no hook, the info level), a file system on which no file can be
  opened, and a stack with one frame at the depth the hook looks at.
\<close>

definition fresh_Engine :: Engine where
  "fresh_Engine = \<lparr>Out = Stderr, Formatter = TextFormatter False '''' False False, Hooks = [], level = InfoLevel\<rparr>"

definition refuse_open :: "string \<Rightarrow> string + Writer" where
  "refuse_open path = Inl (''open '' @ path @ '': no such file or directory'')"

definition handler_frame :: Frame where
  "handler_frame = \<lparr>frame_file = ''/srv/app/handler.go'', frame_line = 42,
                     frame_func = ''github.com/acme/app/api.(*Server).Handle''\<rparr>"

definition one_frame :: "int \<Rightarrow> Frame option" where
  "one_frame skip = (if skip = 9 then Some handler_frame else None)"

definition no_frame :: "int \<Rightarrow> Frame option" where
  "no_frame skip = None"

definition sample_Env :: Env where
  "sample_Env = \<lparr>logrus_New = fresh_Engine, os_OpenFile = refuse_open, runtime_Caller = one_frame\<rparr>"

definition process_start :: World where
  "process_start = \<lparr>globalLogger = None, globalLoggerOnce = False, standardLogger = fresh_Engine, reported = []\<rparr>"

text \<open>A context in which every key of the library is bound to a value of a wrong type.\<close>

definition mistyped_ctx :: ctx where
  "mistyped_ctx =
     WithValue (WithValue (WithValue (WithValue (WithValue (WithTraceID Background ''t-1'')
       TraceIDKey (AInt 42)) RequestIDKey (AInt 7)) UserIDKey (ABool True))
       SpanIDKey (AMetaData None)) CustomFieldsKey (AMap (Some 0))"

text \<open>The logger that \<open>NewLogger\<close> builds from the default configuration on a fresh engine.\<close>

definition default_logger :: LogrusLogger where
  "default_logger =
     \<lparr>Logger = \<lparr>Out = Stdout, Formatter = JSONFormatter ''2006/01/02 15:04:05.000'' False True False,
                 Hooks = [NewCallerHook CallerSkipFrames], level = InfoLevel\<rparr>,
      config = DefaultConfig\<rparr>"

text \<open>
  A context with a request id and, laid over it, a custom field named like the request
  id attribute, with the heap that holds its bag.
\<close>

definition shadowed :: "heap \<times> ctx" where
  "shadowed = WithCustomField [] (WithRequestID Background ''req-1'') ''request_id'' (AInt 7)"

text \<open>The scenario of the specification: a request id, then a custom field \<open>a = 1\<close>.\<close>

definition scenario :: "heap \<times> ctx" where
  "scenario = WithCustomField [] (WithRequestID Background ''req-1'') ''a'' (AInt 1)"

text \<open>A configuration at the debug level whose log file is in a directory that does not exist.\<close>

definition unopenable_config :: Config where
  "unopenable_config = DefaultConfig\<lparr>Level := DebugLevel, FilePath := ''/var/log/missing/app.log''\<rparr>"

text \<open>The same configuration with its output left unset.\<close>

definition unopenable_silent_config :: Config where
  "unopenable_silent_config = unopenable_config\<lparr>Output := NilWriter\<rparr>"

text \<open>A context whose bag has an entry named like the hook's \<open>file\<close> field, with its heap.\<close>

definition file_named :: "heap \<times> ctx" where
  "file_named = WithCustomField [] Background ''file'' (AStr ''mine'')"

section \<open>The context field store: heap and chain lemmas\<close>

lemma Value_unbound: "\<not> bound k c \<Longrightarrow> Value c k = ANil"
  by (induction c) auto

lemma length_WithCustomField: "length (fst (WithCustomField h c k v)) = Suc (length h)"
  by (simp add: WithCustomField_def make_MetaData_def store_def copy_into_def Let_def split: prod.splits option.splits)

lemma map_at_WithCustomField_old:
  "a < length h \<Longrightarrow> map_at (fst (WithCustomField h c k v)) a = map_at h a"
  by (simp add: WithCustomField_def make_MetaData_def store_def copy_into_def map_at_def Let_def nth_append
      split: prod.splits option.splits)

lemma GetCustomFields_WithCustomField:
  "GetCustomFields (snd (WithCustomField h c k v)) = (Some (length h), True)"
  by (simp add: WithCustomField_def make_MetaData_def GetCustomFields_def Let_def split: prod.splits option.splits)

lemma bag_WithCustomField:
  "bag (fst (WithCustomField h c k v)) (snd (WithCustomField h c k v)) = (bag h c)(k \<mapsto> v)"
  apply (cases "Value c CustomFieldsKey")
  apply (auto simp add: WithCustomField_def make_MetaData_def store_def copy_into_def map_at_def
      bag_def entries_def GetCustomFields_def Let_def nth_append
      split: prod.splits option.splits)
  done

lemma Value_WithCustomField_other:
  "k' \<noteq> CustomFieldsKey \<Longrightarrow> Value (snd (WithCustomField h c k v)) k' = Value c k'"
  by (simp add: WithCustomField_def make_MetaData_def Let_def split: prod.splits option.splits)

lemma WithCustomField_result:
  assumes "WithCustomField h c k v = (h', c')"
  shows "length h' = Suc (length h)"
    and "a < length h \<Longrightarrow> map_at h' a = map_at h a"
    and "GetCustomFields c' = (Some (length h), True)"
    and "bag h' c' = (bag h c)(k \<mapsto> v)"
    and "k' \<noteq> CustomFieldsKey \<Longrightarrow> Value c' k' = Value c k'"
  using assms length_WithCustomField [of h c k v] map_at_WithCustomField_old [of a h c k v]
    GetCustomFields_WithCustomField [of h c k v] bag_WithCustomField [of h c k v]
    Value_WithCustomField_other [of k' h c k v]
  by simp_all

lemma call_length: "call h c x = (h', c') \<Longrightarrow> length h \<le> length h'"
  by (cases x) (auto dest: WithCustomField_result(1))

lemma call_map_at: "call h c x = (h', c') \<Longrightarrow> a < length h \<Longrightarrow> map_at h' a = map_at h a"
  by (cases x) (auto dest: WithCustomField_result(2))

lemma calls_length: "calls h c xs = (h', c') \<Longrightarrow> length h \<le> length h'"
proof (induction xs arbitrary: h c)
  case Nil
  then show ?case by simp
next
  case (Cons x xs)
  obtain h1 c1 where s: "call h c x = (h1, c1)" by (cases "call h c x")
  with Cons.prems have "calls h1 c1 xs = (h', c')" by simp
  from Cons.IH [OF this] call_length [OF s] show ?case by simp
qed

lemma calls_map_at: "calls h c xs = (h', c') \<Longrightarrow> a < length h \<Longrightarrow> map_at h' a = map_at h a"
proof (induction xs arbitrary: h c)
  case Nil
  then show ?case by simp
next
  case (Cons x xs)
  obtain h1 c1 where s: "call h c x = (h1, c1)" by (cases "call h c x")
  with Cons.prems have r: "calls h1 c1 xs = (h', c')" by simp
  from call_length [OF s] Cons.prems(2) have "a < length h1" by simp
  from Cons.IH [OF r this] call_map_at [OF s Cons.prems(2)] show ?case by simp
qed

lemma bag_frame: "calls h c xs = (h', c') \<Longrightarrow> allocated h a \<Longrightarrow> bag h' a = bag h a"
  using calls_map_at [of h c xs h' c']
  by (auto simp: bag_def entries_def allocated_def split: option.splits)

lemma call_bag: "call h c x = (h', c') \<Longrightarrow> bag h' c' = bag h c ++ custom_of [x]"
  by (cases x) (auto simp: With_defs bag_def GetCustomFields_def key_defs dest: WithCustomField_result(4))

lemma custom_of_Cons: "custom_of (x # xs) = custom_of [x] ++ custom_of xs"
  by (cases x) simp_all

lemma calls_bag: "calls h c xs = (h', c') \<Longrightarrow> bag h' c' = bag h c ++ custom_of xs"
proof (induction xs arbitrary: h c)
  case Nil
  then show ?case by simp
next
  case (Cons x xs)
  obtain h1 c1 where s: "call h c x = (h1, c1)" by (cases "call h c x")
  with Cons.prems have r: "calls h1 c1 xs = (h', c')" by simp
  have "bag h' c' = (bag h c ++ custom_of [x]) ++ custom_of xs"
    using Cons.IH [OF r] call_bag [OF s] by simp
  then show ?case using custom_of_Cons [of x xs] by simp
qed

lemma call_Value:
  "call h c x = (h', c') \<Longrightarrow> k \<noteq> CustomFieldsKey \<Longrightarrow>
   Value c' k = (case x of CallRequestID s \<Rightarrow> if k = RequestIDKey then AStr s else Value c k
     | CallUserID s \<Rightarrow> if k = UserIDKey then AStr s else Value c k
     | CallTraceID s \<Rightarrow> if k = TraceIDKey then AStr s else Value c k
     | CallSpanID s \<Rightarrow> if k = SpanIDKey then AStr s else Value c k
     | CallCustomField f v \<Rightarrow> Value c k)"
  by (cases x) (auto simp: With_defs dest: WithCustomField_result(5))

lemma calls_id:
  assumes step: "\<And>h c x h1 c1. call h c x = (h1, c1) \<Longrightarrow>
      assert_string (Value c1 K) = layered (sel x) (assert_string (Value c K))"
    and run: "calls h c xs = (h', c')"
  shows "assert_string (Value c' K) = layered (last_id sel xs) (assert_string (Value c K))"
  using run
proof (induction xs arbitrary: h c)
  case Nil
  then show ?case by (simp add: layered_def)
next
  case (Cons x xs)
  obtain h1 c1 where s: "call h c x = (h1, c1)" by (cases "call h c x")
  with Cons.prems have r: "calls h1 c1 xs = (h', c')" by simp
  show ?case using Cons.IH [OF r] step [OF s] by (simp add: layered_def split: option.splits)
qed

lemma calls_request:
  "calls h c xs = (h', c') \<Longrightarrow> GetRequestID c' = layered (last_id request_of xs) (GetRequestID c)"
  unfolding GetRequestID_def
proof (rule calls_id)
  fix h c x h1 c1 assume "call h c x = (h1, c1)"
  from call_Value [OF this, of RequestIDKey]
  show "assert_string (Value c1 RequestIDKey) = layered (request_of x) (assert_string (Value c RequestIDKey))"
    by (cases x) (auto simp: layered_def key_defs)
qed

lemma calls_user:
  "calls h c xs = (h', c') \<Longrightarrow> GetUserID c' = layered (last_id user_of xs) (GetUserID c)"
  unfolding GetUserID_def
proof (rule calls_id)
  fix h c x h1 c1 assume "call h c x = (h1, c1)"
  from call_Value [OF this, of UserIDKey]
  show "assert_string (Value c1 UserIDKey) = layered (user_of x) (assert_string (Value c UserIDKey))"
    by (cases x) (auto simp: layered_def key_defs)
qed

lemma calls_trace:
  "calls h c xs = (h', c') \<Longrightarrow> GetTraceID c' = layered (last_id trace_of xs) (GetTraceID c)"
  unfolding GetTraceID_def
proof (rule calls_id)
  fix h c x h1 c1 assume "call h c x = (h1, c1)"
  from call_Value [OF this, of TraceIDKey]
  show "assert_string (Value c1 TraceIDKey) = layered (trace_of x) (assert_string (Value c TraceIDKey))"
    by (cases x) (auto simp: layered_def key_defs)
qed

lemma calls_span:
  "calls h c xs = (h', c') \<Longrightarrow> GetSpanID c' = layered (last_id span_of xs) (GetSpanID c)"
  unfolding GetSpanID_def
proof (rule calls_id)
  fix h c x h1 c1 assume "call h c x = (h1, c1)"
  from call_Value [OF this, of SpanIDKey]
  show "assert_string (Value c1 SpanIDKey) = layered (span_of x) (assert_string (Value c SpanIDKey))"
    by (cases x) (auto simp: layered_def key_defs)
qed

lemma call_found:
  "call h c x = (h', c') \<Longrightarrow> snd (GetCustomFields c') = (snd (GetCustomFields c) \<or> is_custom x)"
  by (cases x) (auto simp: With_defs GetCustomFields_def key_defs dest: WithCustomField_result(3))

lemma calls_found:
  "calls h c xs = (h', c') \<Longrightarrow> snd (GetCustomFields c') = (snd (GetCustomFields c) \<or> list_ex is_custom xs)"
proof (induction xs arbitrary: h c)
  case Nil
  then show ?case by simp
next
  case (Cons x xs)
  obtain h1 c1 where s: "call h c x = (h1, c1)" by (cases "call h c x")
  with Cons.prems have r: "calls h1 c1 xs = (h', c')" by simp
  show ?case using Cons.IH [OF r] call_found [OF s] by auto
qed

lemma call_allocated: "call h c x = (h', c') \<Longrightarrow> allocated h c \<Longrightarrow> allocated h' c'"
proof (cases x)
  case (CallCustomField k v)
  assume "call h c x = (h', c')"
  with CallCustomField have w: "WithCustomField h c k v = (h', c')" by simp
  show ?thesis
    using WithCustomField_result(1) [OF w] WithCustomField_result(3) [OF w]
    by (simp add: allocated_def)
qed (auto simp: With_defs allocated_def GetCustomFields_def key_defs)

lemma calls_allocated: "calls h c xs = (h', c') \<Longrightarrow> allocated h c \<Longrightarrow> allocated h' c'"
proof (induction xs arbitrary: h c)
  case Nil
  then show ?case by simp
next
  case (Cons x xs)
  obtain h1 c1 where s: "call h c x = (h1, c1)" by (cases "call h c x")
  with Cons.prems have r: "calls h1 c1 xs = (h', c')" by simp
  show ?case using Cons.IH [OF r] call_allocated [OF s] Cons.prems(2) by simp
qed

lemma assert_string_wrong: "\<not> is_string v \<Longrightarrow> assert_string v = ('''', False)"
  by (cases v) simp_all

lemma assert_MetaData_wrong: "\<not> is_MetaData v \<Longrightarrow> assert_MetaData v = (None, False)"
  by (cases v) simp_all

lemma custom_field_frame:
  assumes "WithCustomField h c k v = (h', c')" and "allocated h a"
  shows "bag h' a = bag h a" and "allocated h' a"
proof -
  from assms(1) have "calls h c [CallCustomField k v] = (h', c')" by simp
  from bag_frame [OF this assms(2)] show "bag h' a = bag h a" .
  from WithCustomField_result(1) [OF assms(1)] assms(2) show "allocated h' a"
    by (auto simp: allocated_def split: option.splits)
qed

lemma calls_allocated_other: "calls h c xs = (h', c') \<Longrightarrow> allocated h a \<Longrightarrow> allocated h' a"
  using calls_length [of h c xs h' c'] by (auto simp: allocated_def split: option.splits)

section \<open>The context field store: claims\<close>

text \<open>
  C1. Let \<open>shared\<close> be the context returned by \<open>WithCustomField(base, k, v1)\<close>, for any
  base context, heap, key and values, and let \<open>c1\<close> and \<open>c2\<close> be two contexts derived
  from it by any sequences of With calls, those leading to \<open>c1\<close> not binding \<open>k\<close> again.
  After \<open>WithCustomField(c2, k, v2)\<close> has returned \<open>c3\<close>, the bag read through \<open>c1\<close> still
  has \<open>v1\<close> under \<open>k\<close> and the bag read through \<open>c3\<close> has \<open>v2\<close>. The call wrote into a map
  allocated by itself: every map that existed before it, in particular the bags of
  \<open>c1\<close>, \<open>c2\<close> and \<open>shared\<close>, reads as before.
\<close>

theorem custom_field_branches_do_not_alias:
  assumes shared: "WithCustomField h base k v1 = (h1, shared)"
    and first: "calls h1 shared xs1 = (h2, c1)" and keep: "custom_of xs1 k = None"
    and second: "calls h2 shared xs2 = (h3, c2)"
    and added: "WithCustomField h3 c2 k v2 = (h4, c3)"
  shows "bag h3 c1 k = Some v1 \<and> bag h4 c1 k = Some v1 \<and> bag h4 c3 k = Some v2
       \<and> snd (GetCustomFields c1) \<and> snd (GetCustomFields c3)
       \<and> bag h4 c1 = bag h3 c1 \<and> bag h4 c2 = bag h3 c2 \<and> bag h4 shared = bag h1 shared
       \<and> (\<forall>a < length h3. map_at h4 a = map_at h3 a)
       \<and> fst (GetCustomFields c3) = Some (length h3)"
proof -
  have a1: "allocated h1 shared"
    using WithCustomField_result(1) [OF shared] WithCustomField_result(3) [OF shared]
    by (simp add: allocated_def)
  have a2: "allocated h2 c1" using calls_allocated [OF first a1] .
  have a3: "allocated h3 c1" using calls_allocated_other [OF second a2] .
  have s2: "allocated h2 shared" using calls_allocated_other [OF first a1] .
  have s3: "allocated h3 shared" using calls_allocated_other [OF second s2] .
  have c2a: "allocated h3 c2" using calls_allocated [OF second s2] .
  have b2: "bag h2 c1 k = Some v1"
    using calls_bag [OF first] WithCustomField_result(4) [OF shared] keep
    by (simp add: map_add_def)
  have b3: "bag h3 c1 = bag h2 c1" using bag_frame [OF second a2] .
  have b4: "bag h4 c1 = bag h3 c1" using custom_field_frame(1) [OF added a3] .
  have sh: "bag h4 shared = bag h1 shared"
    using custom_field_frame(1) [OF added s3] bag_frame [OF second s2] bag_frame [OF first a1]
    by simp
  have n: "bag h4 c3 k = Some v2" using WithCustomField_result(4) [OF added] by simp
  have fr: "\<forall>a < length h3. map_at h4 a = map_at h3 a"
    using WithCustomField_result(2) [OF added] by simp
  have f1: "snd (GetCustomFields c1)"
    using calls_found [OF first] WithCustomField_result(3) [OF shared] by simp
  show ?thesis
    using b2 b3 b4 sh n fr f1 custom_field_frame(1) [OF added c2a]
      WithCustomField_result(3) [OF added]
    by simp
qed

text \<open>
  The scenario of the specification, from the root context and the empty heap: both
  holders keep \<open>shared\<close> itself, bound with \<open>k = 1\<close>; one adds \<open>k = 2\<close>.
\<close>

theorem custom_field_branches_do_not_alias_witness:
  "WithCustomField [] Background ''k'' (AInt 1)
     = ([[''k'' \<mapsto> AInt 1]], WithValue Background CustomFieldsKey (AMetaData (Some 0)))
 \<and> custom_of [] ''k'' = None
 \<and> WithCustomField [[''k'' \<mapsto> AInt 1]] (WithValue Background CustomFieldsKey (AMetaData (Some 0))) ''k'' (AInt 2)
     = ([[''k'' \<mapsto> AInt 1], [''k'' \<mapsto> AInt 2]],
        WithValue (WithValue Background CustomFieldsKey (AMetaData (Some 0))) CustomFieldsKey (AMetaData (Some 1)))
 \<and> bag [[''k'' \<mapsto> AInt 1], [''k'' \<mapsto> AInt 2]]
        (WithValue Background CustomFieldsKey (AMetaData (Some 0))) ''k'' = Some (AInt 1)
 \<and> bag [[''k'' \<mapsto> AInt 1], [''k'' \<mapsto> AInt 2]]
        (WithValue (WithValue Background CustomFieldsKey (AMetaData (Some 0))) CustomFieldsKey (AMetaData (Some 1)))
        ''k'' = Some (AInt 2)"
proof -
  let ?shared = "WithValue Background CustomFieldsKey (AMetaData (Some 0))"
  have s: "WithCustomField [] Background ''k'' (AInt 1) = ([[''k'' \<mapsto> AInt 1]], ?shared)"
    by (simp add: WithCustomField_def make_MetaData_def store_def map_at_def)
  have a: "WithCustomField [[''k'' \<mapsto> AInt 1]] ?shared ''k'' (AInt 2)
     = ([[''k'' \<mapsto> AInt 1], [''k'' \<mapsto> AInt 2]],
        WithValue ?shared CustomFieldsKey (AMetaData (Some 1)))"
    by (simp add: WithCustomField_def make_MetaData_def store_def copy_into_def map_at_def)
  have r: "calls [[''k'' \<mapsto> AInt 1]] ?shared [] = ([[''k'' \<mapsto> AInt 1]], ?shared)"
    by simp
  have k: "custom_of [] ''k'' = None" by simp
  from custom_field_branches_do_not_alias [OF s r k r a] s a k show ?thesis
    by simp
qed

text \<open>
  C2. For every heap, every context \<open>c\<close> and every finite sequence \<open>xs\<close> of
  \<open>WithRequestID\<close>, \<open>WithUserID\<close>, \<open>WithTraceID\<close>, \<open>WithSpanID\<close> and \<open>WithCustomField\<close>
  calls, the derived context \<open>c'\<close> reads, for each id, the last value the calls bound and
  otherwise what \<open>c\<close> reads; its bag is the bag of \<open>c\<close> with the custom fields of the calls
  laid over it, a later call winning. Every context \<open>a\<close> that existed before the calls (an
  ancestor or any other) reads the same through all five readers afterwards, the contents
  of its bag included. Taking a prefix of \<open>xs\<close> gives the same for each context derived
  on the way.
\<close>

theorem with_calls_layer_bindings:
  assumes "calls h c xs = (h', c')" and "allocated h a"
  shows "GetRequestID c' = layered (last_id request_of xs) (GetRequestID c)
       \<and> GetUserID c' = layered (last_id user_of xs) (GetUserID c)
       \<and> GetTraceID c' = layered (last_id trace_of xs) (GetTraceID c)
       \<and> GetSpanID c' = layered (last_id span_of xs) (GetSpanID c)
       \<and> snd (GetCustomFields c') = (snd (GetCustomFields c) \<or> list_ex is_custom xs)
       \<and> bag h' c' = bag h c ++ custom_of xs
       \<and> reads h' a = reads h a
       \<and> allocated h' a
       \<and> (allocated h c \<longrightarrow> allocated h' c')"
proof -
  have "allocated h' a"
    using calls_allocated_other [OF assms] .
  moreover have "reads h' a = reads h a"
    using bag_frame [OF assms] by (simp add: reads_def)
  ultimately show ?thesis
    using calls_request [OF assms(1)] calls_user [OF assms(1)] calls_trace [OF assms(1)]
      calls_span [OF assms(1)] calls_found [OF assms(1)] calls_bag [OF assms(1)]
      calls_allocated [OF assms(1)]
    by simp
qed

theorem with_calls_layer_bindings_witness:
  "allocated [[''k'' \<mapsto> AInt 1]] (WithValue Background CustomFieldsKey (AMetaData (Some 0)))
   \<and> GetRequestID (snd (calls [[''k'' \<mapsto> AInt 1]] (WithValue Background CustomFieldsKey (AMetaData (Some 0)))
         [CallRequestID ''r1'', CallCustomField ''j'' (AInt 2), CallRequestID ''r2''])) = (''r2'', True)
   \<and> GetUserID (snd (calls [[''k'' \<mapsto> AInt 1]] (WithValue Background CustomFieldsKey (AMetaData (Some 0)))
         [CallRequestID ''r1'', CallCustomField ''j'' (AInt 2), CallRequestID ''r2''])) = ('''', False)
   \<and> bag (fst (calls [[''k'' \<mapsto> AInt 1]] (WithValue Background CustomFieldsKey (AMetaData (Some 0)))
         [CallRequestID ''r1'', CallCustomField ''j'' (AInt 2), CallRequestID ''r2'']))
        (snd (calls [[''k'' \<mapsto> AInt 1]] (WithValue Background CustomFieldsKey (AMetaData (Some 0)))
         [CallRequestID ''r1'', CallCustomField ''j'' (AInt 2), CallRequestID ''r2'']))
      = [''k'' \<mapsto> AInt 1, ''j'' \<mapsto> AInt 2]
   \<and> reads (fst (calls [[''k'' \<mapsto> AInt 1]] (WithValue Background CustomFieldsKey (AMetaData (Some 0)))
         [CallRequestID ''r1'', CallCustomField ''j'' (AInt 2), CallRequestID ''r2'']))
        (WithValue Background CustomFieldsKey (AMetaData (Some 0)))
     = (('''', False), ('''', False), ('''', False), ('''', False), (Some 0, True), [''k'' \<mapsto> AInt 1])"
proof -
  let ?h = "[[''k'' \<mapsto> AInt 1]]"
  let ?a = "WithValue Background CustomFieldsKey (AMetaData (Some 0))"
  let ?xs = "[CallRequestID ''r1'', CallCustomField ''j'' (AInt 2), CallRequestID ''r2'']"
  have al: "allocated ?h ?a"
    by (simp add: allocated_def GetCustomFields_def)
  have rd: "reads ?h ?a = (('''', False), ('''', False), ('''', False), ('''', False), (Some 0, True), [''k'' \<mapsto> AInt 1])"
    by (simp add: reads_def Get_defs key_defs bag_def entries_def map_at_def)
  have bg: "bag ?h ?a = [''k'' \<mapsto> AInt 1]"
    by (simp add: Get_defs key_defs bag_def entries_def map_at_def)
  have id: "GetRequestID ?a = ('''', False)" "GetUserID ?a = ('''', False)"
    by (simp_all add: Get_defs key_defs)
  from with_calls_layer_bindings [OF surjective_pairing al, of ?a ?xs] al rd bg id show ?thesis
    by (simp add: layered_def)
qed

text \<open>
  C8. A reader whose key is bound nowhere in the chain of the context returns the zero
  value and found = false. The readers are total: each returns its pair for every
  context, and none has an error result.
\<close>

theorem unbound_key_reads_not_found:
  "(\<not> bound RequestIDKey c \<longrightarrow> GetRequestID c = ('''', False))
 \<and> (\<not> bound UserIDKey c \<longrightarrow> GetUserID c = ('''', False))
 \<and> (\<not> bound TraceIDKey c \<longrightarrow> GetTraceID c = ('''', False))
 \<and> (\<not> bound SpanIDKey c \<longrightarrow> GetSpanID c = ('''', False))
 \<and> (\<not> bound CustomFieldsKey c \<longrightarrow> GetCustomFields c = (None, False))"
  by (simp add: Get_defs Value_unbound)

text \<open>
  A context that binds a key of another package spelled like the request id key binds
  none of the library's keys.
\<close>

theorem unbound_key_reads_not_found_witness:
  "\<not> bound RequestIDKey (WithValue Background (ForeignKey ''request_id'') (AStr ''x''))
 \<and> \<not> bound UserIDKey (WithValue Background (ForeignKey ''request_id'') (AStr ''x''))
 \<and> \<not> bound TraceIDKey (WithValue Background (ForeignKey ''request_id'') (AStr ''x''))
 \<and> \<not> bound SpanIDKey (WithValue Background (ForeignKey ''request_id'') (AStr ''x''))
 \<and> \<not> bound CustomFieldsKey (WithValue Background (ForeignKey ''request_id'') (AStr ''x''))
 \<and> GetRequestID (WithValue Background (ForeignKey ''request_id'') (AStr ''x'')) = ('''', False)
 \<and> GetUserID (WithValue Background (ForeignKey ''request_id'') (AStr ''x'')) = ('''', False)
 \<and> GetTraceID (WithValue Background (ForeignKey ''request_id'') (AStr ''x'')) = ('''', False)
 \<and> GetSpanID (WithValue Background (ForeignKey ''request_id'') (AStr ''x'')) = ('''', False)
 \<and> GetCustomFields (WithValue Background (ForeignKey ''request_id'') (AStr ''x'')) = (None, False)"
  using unbound_key_reads_not_found [of "WithValue Background (ForeignKey ''request_id'') (AStr ''x'')"]
  by (simp add: key_defs)

text \<open>
  C10. When the value a context yields for one of the library's keys is not of the type
  the reader asserts (not a string for the four ids, not a \<open>MetaData\<close> for the bag), the
  reader returns the zero value and found = false, which is what it returns on the root
  context, where nothing is bound.
\<close>

theorem wrong_type_reads_not_found:
  "(\<not> is_string (Value c RequestIDKey) \<longrightarrow>
       GetRequestID c = ('''', False) \<and> GetRequestID c = GetRequestID Background)
 \<and> (\<not> is_string (Value c UserIDKey) \<longrightarrow>
       GetUserID c = ('''', False) \<and> GetUserID c = GetUserID Background)
 \<and> (\<not> is_string (Value c TraceIDKey) \<longrightarrow>
       GetTraceID c = ('''', False) \<and> GetTraceID c = GetTraceID Background)
 \<and> (\<not> is_string (Value c SpanIDKey) \<longrightarrow>
       GetSpanID c = ('''', False) \<and> GetSpanID c = GetSpanID Background)
 \<and> (\<not> is_MetaData (Value c CustomFieldsKey) \<longrightarrow>
       GetCustomFields c = (None, False) \<and> GetCustomFields c = GetCustomFields Background)"
  by (simp add: Get_defs assert_string_wrong assert_MetaData_wrong)

text \<open>
  A context with all five keys bound to values of a wrong type: an int, a bool, an int
  laid over a well-typed trace id, a map, and under the bag's key a map of the unnamed
  type.
\<close>

theorem wrong_type_reads_not_found_witness:
  "bound TraceIDKey mistyped_ctx
 \<and> Value mistyped_ctx TraceIDKey = AInt 42 \<and> \<not> is_string (Value mistyped_ctx TraceIDKey)
 \<and> \<not> is_string (Value mistyped_ctx RequestIDKey) \<and> \<not> is_string (Value mistyped_ctx UserIDKey)
 \<and> \<not> is_string (Value mistyped_ctx SpanIDKey) \<and> \<not> is_MetaData (Value mistyped_ctx CustomFieldsKey)
 \<and> GetRequestID mistyped_ctx = ('''', False) \<and> GetUserID mistyped_ctx = ('''', False)
 \<and> GetTraceID mistyped_ctx = ('''', False) \<and> GetSpanID mistyped_ctx = ('''', False)
 \<and> GetCustomFields mistyped_ctx = (None, False)"
  using wrong_type_reads_not_found [of mistyped_ctx]
  by (simp add: mistyped_ctx_def key_defs With_defs)

section \<open>The logger facade: claims\<close>

lemma NewLogger_succeeds:
  "(\<exists>l. NewLogger env cfg = Inr l) = (FilePath cfg = '''' \<or> (\<exists>file. os_OpenFile env (FilePath cfg) = Inr file))"
  by (auto simp: NewLogger_def Let_def split: sum.splits if_splits)

lemma NewLogger_Logger:
  assumes "NewLogger env cfg = Inr l"
  shows "level (Logger l) = Level cfg"
    and "Formatter (Logger l) =
           (if EnableJSON cfg \<or> Format cfg = FormatJSON
            then JSONFormatter (TimestampFormat cfg) False True (JSONPretty cfg)
            else TextFormatter True (TimestampFormat cfg) True False)"
    and "config l = cfg"
  using assms by (auto simp: NewLogger_def Let_def split: sum.splits if_splits)

lemma emitted_iff_enabled:
  "(Logf env e entry lvl msg \<noteq> None) = at_or_above lvl (level e)"
  "(\<exists>em. Logf env e entry lvl msg = Some em) = at_or_above lvl (level e)"
  by (simp_all add: Logf_def IsLevelEnabled_def at_or_above_def word_le_nat_alt)

text \<open>
  C7. For every logger and every writer \<open>w\<close>, \<open>SetOutput\<close> makes \<open>w\<close> the sink of the
  engine and the \<open>Output\<close> of the stored configuration and empties \<open>FilePath\<close>; the other
  fields of the configuration (level, format, \<open>EnableJSON\<close>, \<open>JSONPretty\<close>,
  \<open>ReportCaller\<close>, timestamp format) and the threshold, renderer and hooks of the engine
  stay as they were.
\<close>

theorem SetOutput_sets_output_and_clears_path:
  "Out (Logger (SetOutput l w)) = w
 \<and> Output (config (SetOutput l w)) = w
 \<and> FilePath (config (SetOutput l w)) = ''''
 \<and> Level (config (SetOutput l w)) = Level (config l)
 \<and> Format (config (SetOutput l w)) = Format (config l)
 \<and> EnableJSON (config (SetOutput l w)) = EnableJSON (config l)
 \<and> JSONPretty (config (SetOutput l w)) = JSONPretty (config l)
 \<and> ReportCaller (config (SetOutput l w)) = ReportCaller (config l)
 \<and> TimestampFormat (config (SetOutput l w)) = TimestampFormat (config l)
 \<and> level (Logger (SetOutput l w)) = level (Logger l)
 \<and> Formatter (Logger (SetOutput l w)) = Formatter (Logger l)
 \<and> Hooks (Logger (SetOutput l w)) = Hooks (Logger l)"
  by (simp add: SetOutput_def)

text \<open>
  C9. A logger that \<open>NewLogger\<close> returns renders JSON exactly when the configuration has
  \<open>EnableJSON\<close> set or its \<open>Format\<close> is \<open>json\<close>; with any other format, an unknown string
  included, it has the text formatter. \<open>NewLogger\<close> returns a logger exactly when no file
  path is set or the file opens. On the default configuration it always returns one, and
  that one renders JSON although \<open>EnableJSON\<close> is false there.
\<close>

theorem NewLogger_formatter_choice:
  "(NewLogger env cfg = Inr l \<longrightarrow>
      is_JSON (Formatter (Logger l)) = (EnableJSON cfg \<or> Format cfg = FormatJSON)
    \<and> Formatter (Logger l) =
        (if EnableJSON cfg \<or> Format cfg = FormatJSON
         then JSONFormatter (TimestampFormat cfg) False True (JSONPretty cfg)
         else TextFormatter True (TimestampFormat cfg) True False))
 \<and> (\<exists>l. NewLogger env cfg = Inr l)
     = (FilePath cfg = '''' \<or> (\<exists>file. os_OpenFile env (FilePath cfg) = Inr file))
 \<and> (\<exists>d. NewLogger env DefaultConfig = Inr d \<and> is_JSON (Formatter (Logger d)))
 \<and> \<not> EnableJSON DefaultConfig \<and> Format DefaultConfig = FormatJSON"
proof -
  have a: "NewLogger env cfg = Inr l \<longrightarrow>
      is_JSON (Formatter (Logger l)) = (EnableJSON cfg \<or> Format cfg = FormatJSON)
    \<and> Formatter (Logger l) =
        (if EnableJSON cfg \<or> Format cfg = FormatJSON
         then JSONFormatter (TimestampFormat cfg) False True (JSONPretty cfg)
         else TextFormatter True (TimestampFormat cfg) True False)"
    using NewLogger_Logger(2) [of env cfg l] by simp
  have "\<exists>d. NewLogger env DefaultConfig = Inr d"
    using NewLogger_succeeds [of env DefaultConfig] by (simp add: DefaultConfig_def)
  then obtain d where d: "NewLogger env DefaultConfig = Inr d" ..
  have "is_JSON (Formatter (Logger d))"
    using NewLogger_Logger(2) [OF d] by (simp add: DefaultConfig_def)
  with d have c: "\<exists>d. NewLogger env DefaultConfig = Inr d \<and> is_JSON (Formatter (Logger d))"
    by blast
  show ?thesis
    using a NewLogger_succeeds [of env cfg] c by (simp add: DefaultConfig_def)
qed

text \<open>
  The default configuration with a format the library does not know: the logger gets
  the text formatter.
\<close>

theorem NewLogger_formatter_choice_witness:
  "NewLogger sample_Env (DefaultConfig\<lparr>Format := ''yaml''\<rparr>)
     = Inr \<lparr>Logger = \<lparr>Out = Stdout, Formatter = TextFormatter True ''2006/01/02 15:04:05.000'' True False,
                        Hooks = [\<lparr>SkipFrames = 9\<rparr>], level = InfoLevel\<rparr>,
            config = DefaultConfig\<lparr>Format := ''yaml''\<rparr>\<rparr>
 \<and> \<not> is_JSON (TextFormatter True ''2006/01/02 15:04:05.000'' True False)
 \<and> \<not> (EnableJSON (DefaultConfig\<lparr>Format := ''yaml''\<rparr>) \<or> Format (DefaultConfig\<lparr>Format := ''yaml''\<rparr>) = FormatJSON)"
proof -
  have n: "NewLogger sample_Env (DefaultConfig\<lparr>Format := ''yaml''\<rparr>)
     = Inr \<lparr>Logger = \<lparr>Out = Stdout, Formatter = TextFormatter True ''2006/01/02 15:04:05.000'' True False,
                        Hooks = [\<lparr>SkipFrames = 9\<rparr>], level = InfoLevel\<rparr>,
            config = DefaultConfig\<lparr>Format := ''yaml''\<rparr>\<rparr>"
    by (simp add: NewLogger_def sample_Env_def fresh_Engine_def DefaultConfig_def FormatJSON_def
        NewCallerHook_def CallerSkipFrames_def EchoCallerSkipFrames_def)
  from NewLogger_formatter_choice [of sample_Env "DefaultConfig\<lparr>Format := ''yaml''\<rparr>"] n
  show ?thesis
    by (simp add: DefaultConfig_def FormatJSON_def)
qed



section \<open>The caller hook: claims\<close>

lemma last_seen_absent: "sep \<notin> set s \<Longrightarrow> last_seen s sep i found = found"
  by (induction s arbitrary: i found) auto

lemma last_seen_append:
  "last_seen (xs @ ys) sep i found = last_seen ys sep (i + length xs) (last_seen xs sep i found)"
  by (induction xs arbitrary: i found) auto

lemma LastIndex_absent: "sep \<notin> set s \<Longrightarrow> LastIndex s sep = - 1"
  by (simp add: LastIndex_def last_seen_absent)

lemma LastIndex_last:
  "sep \<notin> set zs \<Longrightarrow> LastIndex (ys @ sep # zs) sep = int (length ys)"
  by (simp add: LastIndex_def last_seen_append last_seen_absent)

lemma takeWhile_all: "\<forall>x \<in> set xs. P x \<Longrightarrow> takeWhile P xs = xs"
  by (induction xs) auto

lemma after_last_absent: "sep \<notin> set s \<Longrightarrow> after_last sep s = s"
proof -
  assume "sep \<notin> set s"
  then have "takeWhile (\<lambda>x. x \<noteq> sep) (rev s) = rev s"
    by (intro takeWhile_all) auto
  then show ?thesis by (simp only: after_last_def rev_rev_ident)
qed

lemma after_last_last: "sep \<notin> set zs \<Longrightarrow> after_last sep (ys @ sep # zs) = zs"
proof -
  assume "sep \<notin> set zs"
  then have "takeWhile (\<lambda>x. x \<noteq> sep) (rev zs @ sep # rev ys) = rev zs"
    by (induction zs rule: rev_induct) auto
  then show ?thesis by (simp add: after_last_def)
qed

text \<open>The slicing of the source after the last separator is the reduction of the specification.\<close>

lemma slice_after_LastIndex:
  "(if LastIndex s sep \<noteq> - 1 then drop (nat (LastIndex s sep + 1)) s else s) = after_last sep s"
proof (cases "sep \<in> set s")
  case False
  then show ?thesis by (simp add: LastIndex_absent after_last_absent)
next
  case True
  then obtain ys zs where s: "s = ys @ sep # zs" and z: "sep \<notin> set zs"
    using split_list_last [of sep s] by blast
  have "nat (int (length ys) + 1) = Suc (length ys)" by simp
  then show ?thesis
    using s z by (simp add: LastIndex_last after_last_last)
qed

lemma after_last_has_no_separator: "sep \<notin> set (after_last sep s)"
proof
  assume "sep \<in> set (after_last sep s)"
  then have "sep \<in> set (takeWhile (\<lambda>x. x \<noteq> sep) (rev s))" by (simp add: after_last_def)
  then show False using set_takeWhileD by fastforce
qed

lemma Fire_frame:
  assumes "runtime_Caller env (SkipFrames hook) = Some fr"
  shows "Fire env hook entry =
           (entry\<lparr>Data := (Data entry)
               (CallerFileFieldKey \<mapsto> AStr (''file://'' @ frame_file fr @ '':'' @ Sprintf_d (frame_line fr)),
                CallerFuncFieldKey \<mapsto> AStr (bare_name (frame_func fr) @ ''()''))\<rparr>, None)"
proof -
  let ?n1 = "after_last CHR ''/'' (frame_func fr)"
  have one: "(if LastIndex (frame_func fr) CHR ''/'' \<noteq> - 1
              then drop (nat (LastIndex (frame_func fr) CHR ''/'' + 1)) (frame_func fr)
              else frame_func fr) = ?n1"
    by (rule slice_after_LastIndex)
  have two: "(if LastIndex ?n1 CHR ''.'' \<noteq> - 1 then drop (nat (LastIndex ?n1 CHR ''.'' + 1)) ?n1 else ?n1)
              = bare_name (frame_func fr)"
    unfolding bare_name_def by (rule slice_after_LastIndex)
  show ?thesis
    unfolding Fire_def Let_def using assms by (simp only: option.case one two)
qed

lemma Fire_no_frame:
  "runtime_Caller env (SkipFrames hook) = None \<Longrightarrow> Fire env hook entry = (entry, None)"
  by (simp add: Fire_def)

text \<open>A hook touches the two caller fields only, and nothing of the record but its fields.\<close>

lemma Fire_other_fields:
  "k \<noteq> CallerFileFieldKey \<Longrightarrow> k \<noteq> CallerFuncFieldKey \<Longrightarrow> Data (fst (Fire env hook entry)) k = Data entry k"
  "Context (fst (Fire env hook entry)) = Context entry"
  "entryLevel (fst (Fire env hook entry)) = entryLevel entry"
  "Message (fst (Fire env hook entry)) = Message entry"
  by (cases "runtime_Caller env (SkipFrames hook)"; simp add: Fire_frame Fire_no_frame)+

lemma fire_hooks_other_fields:
  "k \<noteq> CallerFileFieldKey \<Longrightarrow> k \<noteq> CallerFuncFieldKey \<Longrightarrow> Data (fire_hooks env hooks entry) k = Data entry k"
  by (induction hooks arbitrary: entry) (simp_all add: Fire_other_fields)

text \<open>The printer of the line yields the decimal numeral of the integer.\<close>

lemma digit_cases: "d < 10 \<Longrightarrow> d = 0 \<or> d = 1 \<or> d = 2 \<or> d = 3 \<or> d = 4 \<or> d = 5 \<or> d = 6 \<or> d = 7 \<or> d = 8 \<or> d = (9::nat)"
  by arith

lemma digit_value_digit: "d < 10 \<Longrightarrow> digit_value (digit d) = d"
  using digit_cases [of d] by (auto simp: digit_def digit_value_def)

lemma digit_is_digit: "d < 10 \<Longrightarrow> digit d \<in> set ''0123456789''"
  using digit_cases [of d] by (auto simp: digit_def)

lemma digit_zero: "d < 10 \<Longrightarrow> (digit d = CHR ''0'') = (d = 0)"
  using digit_cases [of d] by (auto simp: digit_def)

lemma decimal_small: "n < 10 \<Longrightarrow> decimal n = [digit n]"
  by (subst decimal.simps) simp

lemma decimal_large: "\<not> n < 10 \<Longrightarrow> decimal n = decimal (n div 10) @ [digit (n mod 10)]"
  by (subst decimal.simps) simp

lemma decimal_nonempty: "decimal n \<noteq> []"
  by (cases "n < 10") (simp_all add: decimal_small decimal_large)

lemma digits_value_snoc: "digits_value (ds @ [c]) = 10 * digits_value ds + digit_value c"
  by (simp add: digits_value_def)

lemma decimal_value: "digits_value (decimal n) = n"
proof (induction n rule: decimal.induct)
  case (1 n)
  show ?case
  proof (cases "n < 10")
    case True
    then show ?thesis
      by (simp add: decimal_small digits_value_def digit_value_digit)
  next
    case False
    with "1" have "digits_value (decimal (n div 10)) = n div 10" by simp
    with False show ?thesis
      by (simp add: decimal_large digits_value_snoc digit_value_digit)
  qed
qed

lemma decimal_digits: "list_all (\<lambda>c. c \<in> set ''0123456789'') (decimal n)"
proof (induction n rule: decimal.induct)
  case (1 n)
  show ?case
  proof (cases "n < 10")
    case True
    then show ?thesis
      using digit_is_digit [of n] by (simp add: decimal_small)
  next
    case False
    with "1" have "list_all (\<lambda>c. c \<in> set ''0123456789'') (decimal (n div 10))" by simp
    with False show ?thesis
      using digit_is_digit [of "n mod 10"] by (simp add: decimal_large)
  qed
qed

lemma decimal_no_leading_zero: "0 < n \<Longrightarrow> hd (decimal n) \<noteq> CHR ''0''"
proof (induction n rule: decimal.induct)
  case (1 n)
  show ?case
  proof (cases "n < 10")
    case True
    with "1.prems" show ?thesis
      by (simp add: decimal_small digit_zero)
  next
    case False
    then have "0 < n div 10" by simp
    with "1.IH" False have "hd (decimal (n div 10)) \<noteq> CHR ''0''" by simp
    with False show ?thesis
      by (simp add: decimal_large decimal_nonempty)
  qed
qed

lemma is_digits_decimal: "is_digits (decimal n)"
proof -
  have "1 < length (decimal n) \<longrightarrow> hd (decimal n) \<noteq> CHR ''0''"
  proof (cases "n < 10")
    case True
    then show ?thesis by (simp add: decimal_small)
  next
    case False
    then have "0 < n" by simp
    then show ?thesis by (simp add: decimal_no_leading_zero)
  qed
  then show ?thesis
    unfolding is_digits_def using decimal_nonempty [of n] decimal_digits [of n] by blast
qed

lemma Sprintf_d_is_decimal: "is_decimal_of i (Sprintf_d i)"
  by (simp add: is_decimal_of_def Sprintf_d_def is_digits_decimal decimal_value)

text \<open>
  C6. When \<open>runtime.Caller\<close> has a frame at the hook's skip count, \<open>Fire\<close> sets the field
  \<open>file\<close> to \<open>file://\<close>, the path, a colon and the line, and the field \<open>func\<close> to the bare
  name followed by \<open>()\<close>. The line is written as its decimal numeral: digits of base ten
  whose value is the line, without a leading zero, after a minus sign when the line is
  negative. The bare name is the function name of the frame after its last slash, and
  of that what follows its last dot; it holds no dot. Every other field and the rest of
  the record stay as they were. When there is no such frame, the record is returned
  unchanged. The error returned is nil in both cases.
\<close>

theorem CallerHook_Fire_attaches_file_and_func:
  "(runtime_Caller env (SkipFrames hook) = Some fr \<longrightarrow>
      Fire env hook entry =
        (entry\<lparr>Data := (Data entry)
            (''file'' \<mapsto> AStr (''file://'' @ frame_file fr @ '':'' @ Sprintf_d (frame_line fr)),
             ''func'' \<mapsto> AStr (bare_name (frame_func fr) @ ''()''))\<rparr>, None)
    \<and> is_decimal_of (frame_line fr) (Sprintf_d (frame_line fr))
    \<and> CHR ''.'' \<notin> set (bare_name (frame_func fr)))
 \<and> (runtime_Caller env (SkipFrames hook) = None \<longrightarrow> Fire env hook entry = (entry, None))
 \<and> (k \<noteq> ''file'' \<and> k \<noteq> ''func'' \<longrightarrow> Data (fst (Fire env hook entry)) k = Data entry k)
 \<and> snd (Fire env hook entry) = None"
proof -
  have a: "runtime_Caller env (SkipFrames hook) = Some fr \<longrightarrow>
      Fire env hook entry =
        (entry\<lparr>Data := (Data entry)
            (''file'' \<mapsto> AStr (''file://'' @ frame_file fr @ '':'' @ Sprintf_d (frame_line fr)),
             ''func'' \<mapsto> AStr (bare_name (frame_func fr) @ ''()''))\<rparr>, None)"
    using Fire_frame [of env hook fr entry]
    by (simp add: CallerFileFieldKey_def CallerFuncFieldKey_def)
  have n: "is_decimal_of (frame_line fr) (Sprintf_d (frame_line fr))"
    by (rule Sprintf_d_is_decimal)
  have b: "CHR ''.'' \<notin> set (bare_name (frame_func fr))"
    unfolding bare_name_def by (rule after_last_has_no_separator)
  have c: "runtime_Caller env (SkipFrames hook) = None \<longrightarrow> Fire env hook entry = (entry, None)"
    by (simp add: Fire_no_frame)
  have d: "k \<noteq> ''file'' \<and> k \<noteq> ''func'' \<longrightarrow> Data (fst (Fire env hook entry)) k = Data entry k"
    using Fire_other_fields(1) [of k env hook entry]
    by (simp add: CallerFileFieldKey_def CallerFuncFieldKey_def)
  have e: "snd (Fire env hook entry) = None"
    by (cases "runtime_Caller env (SkipFrames hook)") (simp_all add: Fire_frame Fire_no_frame)
  show ?thesis using a n b c d e by simp
qed

text \<open>
  The hook that \<open>NewLogger\<close> installs, on a stack whose ninth frame is a method of a
  handler at line 42, and on a stack too shallow to have one.
\<close>

theorem CallerHook_Fire_attaches_file_and_func_witness:
  "runtime_Caller sample_Env (SkipFrames (NewCallerHook CallerSkipFrames)) = Some handler_frame
 \<and> Fire sample_Env (NewCallerHook CallerSkipFrames) (NewEntry fresh_Engine)
     = ((NewEntry fresh_Engine)\<lparr>Data := [''file'' \<mapsto> AStr ''file:///srv/app/handler.go:42'',
                                          ''func'' \<mapsto> AStr ''Handle()'']\<rparr>, None)
 \<and> frame_line handler_frame = 42 \<and> is_decimal_of 42 ''42''
 \<and> runtime_Caller (sample_Env\<lparr>runtime_Caller := no_frame\<rparr>) (SkipFrames (NewCallerHook CallerSkipFrames)) = None
 \<and> Fire (sample_Env\<lparr>runtime_Caller := no_frame\<rparr>) (NewCallerHook CallerSkipFrames) (NewEntry fresh_Engine)
     = (NewEntry fresh_Engine, None)
 \<and> ''user'' \<noteq> ''file'' \<and> ''user'' \<noteq> ''func''
 \<and> Data (fst (Fire sample_Env (NewCallerHook CallerSkipFrames) (NewEntry fresh_Engine))) ''user'' = None"
proof -
  let ?hook = "NewCallerHook CallerSkipFrames"
  have fr: "runtime_Caller sample_Env (SkipFrames ?hook) = Some handler_frame"
    by (simp add: sample_Env_def NewCallerHook_def CallerSkipFrames_def EchoCallerSkipFrames_def
        one_frame_def)
  have nf: "runtime_Caller (sample_Env\<lparr>runtime_Caller := no_frame\<rparr>) (SkipFrames ?hook) = None"
    by (simp add: no_frame_def)
  have name: "bare_name (frame_func handler_frame) = ''Handle''"
    by (simp add: bare_name_def after_last_def handler_frame_def)
  have ln: "frame_line handler_frame = 42"
    by (simp add: handler_frame_def)
  have line: "Sprintf_d 42 = ''42''"
    by (simp add: Sprintf_d_def decimal_small decimal_large digit_def)
  have path: "frame_file handler_frame = ''/srv/app/handler.go''"
    by (simp add: handler_frame_def)
  have d: "Data (NewEntry fresh_Engine) = Map.empty"
    by (simp add: NewEntry_def)
  from CallerHook_Fire_attaches_file_and_func [of sample_Env ?hook handler_frame "NewEntry fresh_Engine" "''user''"]
    CallerHook_Fire_attaches_file_and_func [of "sample_Env\<lparr>runtime_Caller := no_frame\<rparr>" ?hook handler_frame "NewEntry fresh_Engine" "''user''"]
    fr nf
  show ?thesis
    by (simp add: name ln line path d)
qed

section \<open>Context-aware logging: claims\<close>

lemma not_found_no_bag: "\<not> snd (GetCustomFields c) \<Longrightarrow> fst (GetCustomFields c) = None"
  by (cases "Value c CustomFieldsKey") (simp_all add: GetCustomFields_def)

lemma addContextFields_Data:
  "Data (addContextFields h c entry) = Data entry ++ context_attributes h c"
proof -
  obtain r ro where r: "GetRequestID c = (r, ro)" by (cases "GetRequestID c")
  obtain u uo where u: "GetUserID c = (u, uo)" by (cases "GetUserID c")
  obtain t to where t: "GetTraceID c = (t, to)" by (cases "GetTraceID c")
  obtain s so where s: "GetSpanID c = (s, so)" by (cases "GetSpanID c")
  obtain m mo where m: "GetCustomFields c = (m, mo)" by (cases "GetCustomFields c")
  have nb: "\<not> mo \<Longrightarrow> entries h m = Map.empty"
    using not_found_no_bag [of c] m by (simp add: entries_def)
  show ?thesis
    using nb
    by (simp add: addContextFields_def Let_def r u t s m WithField_def range_WithField_def
        context_attributes_def id_attributes_def id_attribute_def bag_def key_defs)
qed

lemma addContextFields_rest:
  "Context (addContextFields h c entry) = Context entry"
  "entryLevel (addContextFields h c entry) = entryLevel entry"
  "Message (addContextFields h c entry) = Message entry"
  by (simp_all add: addContextFields_def Let_def WithField_def range_WithField_def split: prod.splits)

lemma Fire_Data:
  "Data (fst (Fire env hook entry)) =
     Data entry ++ (case runtime_Caller env (SkipFrames hook) of
                      None \<Rightarrow> Map.empty
                    | Some fr \<Rightarrow> caller_fields fr)"
  by (cases "runtime_Caller env (SkipFrames hook)")
    (simp_all add: Fire_frame Fire_no_frame caller_fields_def CallerFileFieldKey_def
      CallerFuncFieldKey_def)

lemma fire_hooks_Data: "Data (fire_hooks env hooks entry) = Data entry ++ hooks_fields env hooks"
  by (induction hooks arbitrary: entry) (simp_all add: Fire_Data)

lemma caller_fields_other: "k \<noteq> ''file'' \<Longrightarrow> k \<noteq> ''func'' \<Longrightarrow> caller_fields fr k = None"
  by (simp add: caller_fields_def)

lemma hooks_fields_other: "k \<noteq> ''file'' \<Longrightarrow> k \<noteq> ''func'' \<Longrightarrow> hooks_fields env hooks k = None"
  by (induction hooks) (simp_all add: map_add_def caller_fields_other split: option.splits)

lemma NewLogger_Hooks:
  "NewLogger env cfg = Inr l \<Longrightarrow>
     Hooks (Logger l) = Hooks (logrus_New env) @ (if ReportCaller cfg then [NewCallerHook CallerSkipFrames] else [])"
  by (auto simp: NewLogger_def Let_def split: sum.splits if_splits)

lemma Logf_field:
  "(case Logf env e entry lvl msg of None \<Rightarrow> None | Some em \<Rightarrow> Data (written em) k)
     = (if at_or_above lvl (level e) then (Data entry ++ hooks_fields env (Hooks e)) k else None)"
  by (simp add: Logf_def IsLevelEnabled_def at_or_above_def word_le_nat_alt fire_hooks_Data)

lemma context_call_field:
  shows "emitted_field (DebugContextf env h l c msg) k
           = (if at_or_above DebugLevel (level (Logger l))
              then record_fields env (Hooks (Logger l)) h c k else None)"
    and "emitted_field (InfoContextf env h l c msg) k
           = (if at_or_above InfoLevel (level (Logger l))
              then record_fields env (Hooks (Logger l)) h c k else None)"
    and "emitted_field (WarnContextf env h l c msg) k
           = (if at_or_above WarnLevel (level (Logger l))
              then record_fields env (Hooks (Logger l)) h c k else None)"
    and "emitted_field (ErrorContextf env h l c msg) k
           = (if at_or_above ErrorLevel (level (Logger l))
              then record_fields env (Hooks (Logger l)) h c k else None)"
    and "emitted_field (FatalContextf env h l c msg) k
           = (if at_or_above FatalLevel (level (Logger l))
              then record_fields env (Hooks (Logger l)) h c k else None)"
  unfolding emitted_field_def DebugContextf_def InfoContextf_def WarnContextf_def ErrorContextf_def
    FatalContextf_def Entry_Debugf_def Entry_Infof_def Entry_Warnf_def Entry_Errorf_def
    Entry_Fatalf_def Let_def
  by (simp_all add: Logf_field addContextFields_Data Logger_WithContext_def record_fields_def)

lemma context_attributes_bag: "bag h c k = Some v \<Longrightarrow> context_attributes h c k = Some v"
  by (simp add: context_attributes_def map_add_def)

lemma context_attributes_ids:
  assumes "bag h c k = None"
  shows "context_attributes h c k =
     (if k = ''span_id'' \<and> snd (GetSpanID c) then Some (AStr (fst (GetSpanID c)))
      else if k = ''trace_id'' \<and> snd (GetTraceID c) then Some (AStr (fst (GetTraceID c)))
      else if k = ''user_id'' \<and> snd (GetUserID c) then Some (AStr (fst (GetUserID c)))
      else if k = ''request_id'' \<and> snd (GetRequestID c) then Some (AStr (fst (GetRequestID c)))
      else None)"
  using assms
  by (simp add: context_attributes_def id_attributes_def id_attribute_def map_add_def key_defs)

lemma record_fields_cases:
  "record_fields env hooks h c k =
     (case hooks_fields env hooks k of
        Some v \<Rightarrow> Some v
      | None \<Rightarrow>
          (case bag h c k of
             Some v \<Rightarrow> Some v
           | None \<Rightarrow>
               if k = ''span_id'' \<and> snd (GetSpanID c) then Some (AStr (fst (GetSpanID c)))
               else if k = ''trace_id'' \<and> snd (GetTraceID c) then Some (AStr (fst (GetTraceID c)))
               else if k = ''user_id'' \<and> snd (GetUserID c) then Some (AStr (fst (GetUserID c)))
               else if k = ''request_id'' \<and> snd (GetRequestID c) then Some (AStr (fst (GetRequestID c)))
               else None))"
proof (cases "hooks_fields env hooks k")
  case (Some v)
  then show ?thesis by (simp add: record_fields_def map_add_def)
next
  case None
  note nohook = this
  show ?thesis
  proof (cases "bag h c k")
    case None
    from context_attributes_ids [OF this] None nohook show ?thesis
      by (simp add: record_fields_def map_add_def)
  next
    case (Some v)
    from context_attributes_bag [OF this] Some nohook show ?thesis
      by (simp add: record_fields_def map_add_def)
  qed
qed

lemma record_fields_other:
  "k \<noteq> ''file'' \<Longrightarrow> k \<noteq> ''func'' \<Longrightarrow> record_fields env hooks h c k = context_attributes h c k"
  by (simp add: record_fields_def map_add_def hooks_fields_other)

text \<open>
  C4, as stated, fails: a custom field named \<open>request_id\<close> takes the place of the request
  id in the record. The context binds the request id \<open>req-1\<close>, the info call hands a
  record to the sink, and the record has 7 under \<open>request_id\<close>.
\<close>

theorem request_id_replaced_by_custom_field:
  "GetRequestID (snd shadowed) = (''req-1'', True)
 \<and> emitted (InfoContextf sample_Env (fst shadowed) default_logger (snd shadowed) ''m'') \<noteq> None
 \<and> emitted_field (InfoContextf sample_Env (fst shadowed) default_logger (snd shadowed) ''m'') ''request_id''
     = Some (AInt 7)
 \<and> emitted_field (InfoContextf sample_Env (fst shadowed) default_logger (snd shadowed) ''m'') ''request_id''
     \<noteq> Some (AStr ''req-1'')"
proof -
  have sh: "shadowed = ([[''request_id'' \<mapsto> AInt 7]],
      WithValue (WithRequestID Background ''req-1'') CustomFieldsKey (AMetaData (Some 0)))"
    by (simp add: shadowed_def WithCustomField_def WithRequestID_def key_defs make_MetaData_def
        store_def map_at_def)
  have g: "GetRequestID (snd shadowed) = (''req-1'', True)"
    by (simp add: sh GetRequestID_def WithRequestID_def key_defs)
  have b: "bag (fst shadowed) (snd shadowed) ''request_id'' = Some (AInt 7)"
    by (simp add: sh bag_def entries_def GetCustomFields_def key_defs map_at_def)
  have lv: "at_or_above InfoLevel (level (Logger default_logger))"
    by (simp add: default_logger_def at_or_above_def)
  have e: "emitted (InfoContextf sample_Env (fst shadowed) default_logger (snd shadowed) ''m'') \<noteq> None"
    using lv by (simp add: InfoContextf_def Entry_Infof_def Let_def emitted_iff_enabled)
  have f: "emitted_field (InfoContextf sample_Env (fst shadowed) default_logger (snd shadowed) ''m'') ''request_id''
     = Some (AInt 7)"
    using lv context_attributes_bag [OF b]
    by (simp add: context_call_field(2) record_fields_other)
  show ?thesis using g e f by simp
qed

lemma scenario_attributes:
  assumes "WithCustomField h (WithRequestID c r) f v = (h2, c2)"
  shows "context_attributes h2 c2 f = Some v"
    and "f \<noteq> ''request_id'' \<Longrightarrow> bag h c ''request_id'' = None \<Longrightarrow>
           context_attributes h2 c2 ''request_id'' = Some (AStr r)"
proof -
  have b2: "bag h2 c2 = (bag h c)(f \<mapsto> v)"
    using WithCustomField_result(4) [OF assms]
    by (simp add: bag_def GetCustomFields_def WithRequestID_def key_defs)
  then show "context_attributes h2 c2 f = Some v"
    by (simp add: context_attributes_bag)
  have g: "GetRequestID c2 = (r, True)"
    using WithCustomField_result(5) [OF assms, of RequestIDKey]
    by (simp add: GetRequestID_def WithRequestID_def key_defs)
  assume "f \<noteq> ''request_id''" "bag h c ''request_id'' = None"
  with b2 have "bag h2 c2 ''request_id'' = None" by simp
  from context_attributes_ids [OF this] g
  show "context_attributes h2 c2 ''request_id'' = Some (AStr r)" by simp
qed

text \<open>
  C4, amended. For every context, heap and logger, each of the five context-aware calls
  that is not suppressed hands the sink a record whose fields are exactly these, for
  every name \<open>k\<close>. Under \<open>file\<close> and \<open>func\<close>: what the caller hooks of the logger set, when
  one of them finds its frame; this replaces a bag entry or an id of that name. Under
  any name no hook has set: the entry of the custom-fields bag, when a bag is bound and
  has one; and otherwise, under the attribute names \<open>request_id\<close>, \<open>user_id\<close>, \<open>trace_id\<close>
  and \<open>span_id\<close>, the id when it is bound. So every bag entry is carried unless a hook
  sets its name, and an id is carried unless the bag has an entry of its name. A
  binding absent from the context gives no field. A hook sets no other name than
  \<open>file\<close> and \<open>func\<close>; a logger without hooks adds nothing, and a logger from \<open>NewLogger\<close>
  has, after the hooks of the fresh engine, the one caller hook when \<open>ReportCaller\<close> is
  set. In particular, for \<open>ctx2 = WithCustomField(WithRequestID(ctx, "req-1"), "a", 1)\<close>
  the record has \<open>a = 1\<close>, and the request id \<open>req-1\<close> when the bag of \<open>ctx\<close> has no entry
  named \<open>request_id\<close>.
\<close>

theorem context_fields_reach_the_record:
  "emitted_field (DebugContextf env h l c msg) k
     = (if at_or_above DebugLevel (level (Logger l))
        then record_fields env (Hooks (Logger l)) h c k else None)
 \<and> emitted_field (InfoContextf env h l c msg) k
     = (if at_or_above InfoLevel (level (Logger l))
        then record_fields env (Hooks (Logger l)) h c k else None)
 \<and> emitted_field (WarnContextf env h l c msg) k
     = (if at_or_above WarnLevel (level (Logger l))
        then record_fields env (Hooks (Logger l)) h c k else None)
 \<and> emitted_field (ErrorContextf env h l c msg) k
     = (if at_or_above ErrorLevel (level (Logger l))
        then record_fields env (Hooks (Logger l)) h c k else None)
 \<and> emitted_field (FatalContextf env h l c msg) k
     = (if at_or_above FatalLevel (level (Logger l))
        then record_fields env (Hooks (Logger l)) h c k else None)
 \<and> record_fields env hooks h c k =
     (case hooks_fields env hooks k of
        Some v \<Rightarrow> Some v
      | None \<Rightarrow>
          (case bag h c k of
             Some v \<Rightarrow> Some v
           | None \<Rightarrow>
               if k = ''span_id'' \<and> snd (GetSpanID c) then Some (AStr (fst (GetSpanID c)))
               else if k = ''trace_id'' \<and> snd (GetTraceID c) then Some (AStr (fst (GetTraceID c)))
               else if k = ''user_id'' \<and> snd (GetUserID c) then Some (AStr (fst (GetUserID c)))
               else if k = ''request_id'' \<and> snd (GetRequestID c) then Some (AStr (fst (GetRequestID c)))
               else None))
 \<and> (k \<noteq> ''file'' \<and> k \<noteq> ''func'' \<longrightarrow> hooks_fields env hooks k = None)
 \<and> hooks_fields env [] k = None
 \<and> (runtime_Caller env (SkipFrames hook) = None \<longrightarrow> hooks_fields env [hook] k = None)
 \<and> (runtime_Caller env (SkipFrames hook) = Some fr \<longrightarrow>
       hooks_fields env [hook] ''file''
         = Some (AStr (''file://'' @ frame_file fr @ '':'' @ Sprintf_d (frame_line fr)))
     \<and> hooks_fields env [hook] ''func'' = Some (AStr (bare_name (frame_func fr) @ ''()'')))
 \<and> (NewLogger env cfg = Inr l' \<longrightarrow>
       Hooks (Logger l') = Hooks (logrus_New env) @ (if ReportCaller cfg then [NewCallerHook CallerSkipFrames] else []))
 \<and> (WithCustomField h (WithRequestID c ''req-1'') ''a'' (AInt 1) = (h2, c2) \<longrightarrow>
       record_fields env hooks h2 c2 ''a'' = Some (AInt 1)
     \<and> (bag h c ''request_id'' = None \<longrightarrow>
          record_fields env hooks h2 c2 ''request_id'' = Some (AStr ''req-1'')))"
proof -
  have hk: "k \<noteq> ''file'' \<and> k \<noteq> ''func'' \<longrightarrow> hooks_fields env hooks k = None"
    by (simp add: hooks_fields_other)
  have one: "runtime_Caller env (SkipFrames hook) = None \<longrightarrow> hooks_fields env [hook] k = None"
    by simp
  have two: "runtime_Caller env (SkipFrames hook) = Some fr \<longrightarrow>
       hooks_fields env [hook] ''file''
         = Some (AStr (''file://'' @ frame_file fr @ '':'' @ Sprintf_d (frame_line fr)))
     \<and> hooks_fields env [hook] ''func'' = Some (AStr (bare_name (frame_func fr) @ ''()''))"
    by (simp add: caller_fields_def)
  have nl: "NewLogger env cfg = Inr l' \<longrightarrow>
       Hooks (Logger l') = Hooks (logrus_New env) @ (if ReportCaller cfg then [NewCallerHook CallerSkipFrames] else [])"
    using NewLogger_Hooks [of env cfg l'] by blast
  have scen: "WithCustomField h (WithRequestID c ''req-1'') ''a'' (AInt 1) = (h2, c2) \<longrightarrow>
       record_fields env hooks h2 c2 ''a'' = Some (AInt 1)
     \<and> (bag h c ''request_id'' = None \<longrightarrow>
          record_fields env hooks h2 c2 ''request_id'' = Some (AStr ''req-1''))"
    using scenario_attributes [of h c "''req-1''" "''a''" "AInt 1" h2 c2]
    by (simp add: record_fields_other)
  show ?thesis
    using context_call_field [of env h l c msg k] record_fields_cases [of env hooks h c k]
      hk one two nl scen
    by simp
qed

text \<open>
  The scenario from the root context, logged by the default logger with its caller hook
  on a stack that has the frame: at the info level the record has \<open>a = 1\<close> and the
  request id, and no user id; the debug call is suppressed. A bag entry named \<open>file\<close>
  is replaced by the hook's field, and is carried when the stack has no frame.
\<close>

theorem context_fields_reach_the_record_witness:
  "scenario = ([[''a'' \<mapsto> AInt 1]],
      WithValue (WithRequestID Background ''req-1'') CustomFieldsKey (AMetaData (Some 0)))
 \<and> NewLogger sample_Env DefaultConfig = Inr default_logger
 \<and> Hooks (Logger default_logger) = [NewCallerHook CallerSkipFrames]
 \<and> bag [] Background ''request_id'' = None
 \<and> emitted_field (InfoContextf sample_Env (fst scenario) default_logger (snd scenario) ''m'') ''a''
     = Some (AInt 1)
 \<and> emitted_field (InfoContextf sample_Env (fst scenario) default_logger (snd scenario) ''m'') ''request_id''
     = Some (AStr ''req-1'')
 \<and> emitted_field (InfoContextf sample_Env (fst scenario) default_logger (snd scenario) ''m'') ''user_id''
     = None
 \<and> emitted_field (DebugContextf sample_Env (fst scenario) default_logger (snd scenario) ''m'') ''a''
     = None
 \<and> bag (fst file_named) (snd file_named) ''file'' = Some (AStr ''mine'')
 \<and> emitted_field (InfoContextf sample_Env (fst file_named) default_logger (snd file_named) ''m'') ''file''
     = Some (AStr ''file:///srv/app/handler.go:42'')
 \<and> emitted_field (InfoContextf (sample_Env\<lparr>runtime_Caller := no_frame\<rparr>) (fst file_named)
       default_logger (snd file_named) ''m'') ''file''
     = Some (AStr ''mine'')"
proof -
  have sc: "scenario = ([[''a'' \<mapsto> AInt 1]],
      WithValue (WithRequestID Background ''req-1'') CustomFieldsKey (AMetaData (Some 0)))"
    by (simp add: scenario_def WithCustomField_def WithRequestID_def key_defs make_MetaData_def
        store_def map_at_def)
  have fn: "file_named = ([[''file'' \<mapsto> AStr ''mine'']],
      WithValue Background CustomFieldsKey (AMetaData (Some 0)))"
    by (simp add: file_named_def WithCustomField_def key_defs make_MetaData_def store_def map_at_def)
  have nl: "NewLogger sample_Env DefaultConfig = Inr default_logger"
    by (simp add: NewLogger_def sample_Env_def fresh_Engine_def default_logger_def
        DefaultConfig_def FormatJSON_def)
  have hk: "Hooks (Logger default_logger) = [NewCallerHook CallerSkipFrames]"
    by (simp add: default_logger_def)
  have w: "WithCustomField [] (WithRequestID Background ''req-1'') ''a'' (AInt 1)
             = (fst scenario, snd scenario)"
    by (simp add: scenario_def)
  have b0: "bag [] Background ''request_id'' = None"
    by (simp add: bag_def entries_def GetCustomFields_def)
  have bu: "bag (fst scenario) (snd scenario) ''user_id'' = None"
    by (simp add: sc bag_def entries_def GetCustomFields_def key_defs map_at_def)
  have gu: "GetUserID (snd scenario) = ('''', False)"
    by (simp add: sc GetUserID_def WithRequestID_def key_defs)
  have bf: "bag (fst file_named) (snd file_named) ''file'' = Some (AStr ''mine'')"
    by (simp add: fn bag_def entries_def GetCustomFields_def key_defs map_at_def)
  have lv: "at_or_above InfoLevel (level (Logger default_logger))"
    "\<not> at_or_above DebugLevel (level (Logger default_logger))"
    by (simp_all add: default_logger_def at_or_above_def Level_defs)
  have hf: "hooks_fields sample_Env [NewCallerHook CallerSkipFrames] ''file''
              = Some (AStr ''file:///srv/app/handler.go:42'')"
    by (simp add: sample_Env_def NewCallerHook_def CallerSkipFrames_def EchoCallerSkipFrames_def
        one_frame_def caller_fields_def handler_frame_def Sprintf_d_def decimal_small
        decimal_large digit_def map_add_def)
  have hn: "hooks_fields (sample_Env\<lparr>runtime_Caller := no_frame\<rparr>) [NewCallerHook CallerSkipFrames] ''file''
              = None"
    by (simp add: no_frame_def)
  note t = context_fields_reach_the_record
  from t [of sample_Env "[]" default_logger Background "''m''" "''a''" "[NewCallerHook CallerSkipFrames]"
      "NewCallerHook CallerSkipFrames" handler_frame DefaultConfig default_logger "fst scenario" "snd scenario"] w b0
  have ra: "record_fields sample_Env [NewCallerHook CallerSkipFrames] (fst scenario) (snd scenario) ''a''
              = Some (AInt 1)"
    and rr: "record_fields sample_Env [NewCallerHook CallerSkipFrames] (fst scenario) (snd scenario) ''request_id''
              = Some (AStr ''req-1'')"
    by simp_all
  from t [of sample_Env "fst scenario" default_logger "snd scenario" "''m''" "''user_id''"
      "[NewCallerHook CallerSkipFrames]" "NewCallerHook CallerSkipFrames" handler_frame DefaultConfig default_logger "[]" Background] bu gu
  have ru: "record_fields sample_Env [NewCallerHook CallerSkipFrames] (fst scenario) (snd scenario) ''user_id''
              = None"
    by simp
  from t [of sample_Env "fst file_named" default_logger "snd file_named" "''m''" "''file''"
      "[NewCallerHook CallerSkipFrames]" "NewCallerHook CallerSkipFrames" handler_frame DefaultConfig default_logger "[]" Background] hf
  have rf: "record_fields sample_Env [NewCallerHook CallerSkipFrames] (fst file_named) (snd file_named) ''file''
              = Some (AStr ''file:///srv/app/handler.go:42'')"
    by simp
  from t [of "sample_Env\<lparr>runtime_Caller := no_frame\<rparr>" "fst file_named" default_logger "snd file_named"
      "''m''" "''file''" "[NewCallerHook CallerSkipFrames]" "NewCallerHook CallerSkipFrames" handler_frame DefaultConfig default_logger "[]" Background] hn bf
  have rn: "record_fields (sample_Env\<lparr>runtime_Caller := no_frame\<rparr>) [NewCallerHook CallerSkipFrames]
              (fst file_named) (snd file_named) ''file'' = Some (AStr ''mine'')"
    by simp
  from t [of sample_Env "fst scenario" default_logger "snd scenario" "''m''" "''a''"
      "[]" "NewCallerHook CallerSkipFrames" handler_frame DefaultConfig default_logger "[]" Background]
  have ea: "emitted_field (InfoContextf sample_Env (fst scenario) default_logger (snd scenario) ''m'') ''a''
              = record_fields sample_Env [NewCallerHook CallerSkipFrames] (fst scenario) (snd scenario) ''a''"
    and da: "emitted_field (DebugContextf sample_Env (fst scenario) default_logger (snd scenario) ''m'') ''a''
              = None"
    using lv hk by simp_all
  from t [of sample_Env "fst scenario" default_logger "snd scenario" "''m''" "''request_id''"
      "[]" "NewCallerHook CallerSkipFrames" handler_frame DefaultConfig default_logger "[]" Background]
  have er: "emitted_field (InfoContextf sample_Env (fst scenario) default_logger (snd scenario) ''m'') ''request_id''
              = record_fields sample_Env [NewCallerHook CallerSkipFrames] (fst scenario) (snd scenario) ''request_id''"
    using lv hk by simp
  from t [of sample_Env "fst scenario" default_logger "snd scenario" "''m''" "''user_id''"
      "[]" "NewCallerHook CallerSkipFrames" handler_frame DefaultConfig default_logger "[]" Background]
  have eu: "emitted_field (InfoContextf sample_Env (fst scenario) default_logger (snd scenario) ''m'') ''user_id''
              = record_fields sample_Env [NewCallerHook CallerSkipFrames] (fst scenario) (snd scenario) ''user_id''"
    using lv hk by simp
  from t [of sample_Env "fst file_named" default_logger "snd file_named" "''m''" "''file''"
      "[]" "NewCallerHook CallerSkipFrames" handler_frame DefaultConfig default_logger "[]" Background]
  have ef: "emitted_field (InfoContextf sample_Env (fst file_named) default_logger (snd file_named) ''m'') ''file''
              = record_fields sample_Env [NewCallerHook CallerSkipFrames] (fst file_named) (snd file_named) ''file''"
    using lv hk by simp
  from t [of "sample_Env\<lparr>runtime_Caller := no_frame\<rparr>" "fst file_named" default_logger "snd file_named"
      "''m''" "''file''" "[]" "NewCallerHook CallerSkipFrames" handler_frame DefaultConfig default_logger "[]" Background]
  have en: "emitted_field (InfoContextf (sample_Env\<lparr>runtime_Caller := no_frame\<rparr>) (fst file_named)
              default_logger (snd file_named) ''m'') ''file''
              = record_fields (sample_Env\<lparr>runtime_Caller := no_frame\<rparr>) [NewCallerHook CallerSkipFrames]
                  (fst file_named) (snd file_named) ''file''"
    using lv hk by simp
  show ?thesis
    using sc nl hk b0 bf ra rr ru rf rn ea da er eu ef en by simp
qed

section \<open>The global registry: claims\<close>

lemma Once_Do_shuts: "globalLoggerOnce (fst (Once_Do f w))"
  by (simp add: Once_Do_def split: prod.splits)

lemma Once_Do_shut: "globalLoggerOnce w \<Longrightarrow> Once_Do f w = (w, Returned ())"
  by (simp add: Once_Do_def)

lemma InitGlobalLogger_shuts: "globalLoggerOnce (fst (InitGlobalLogger env cfg w))"
  by (simp add: InitGlobalLogger_def Once_Do_shuts)

lemma InitGlobalLogger_ignored:
  "globalLoggerOnce w \<Longrightarrow> InitGlobalLogger env cfg w = (w, Returned ())"
  by (simp add: InitGlobalLogger_def Once_Do_shut)

lemma GetGlobalLogger_ignored:
  "globalLoggerOnce w \<Longrightarrow> GetGlobalLogger env w = (w, Returned (globalLogger w))"
  by (simp add: GetGlobalLogger_def Once_Do_shut)

text \<open>The report of the fallback is at the error level, which the standard logger then has.\<close>

lemma fall_back_panics:
  "write_panics (Entry_Errorf env (e\<lparr>Out := out, level := ErrorLevel\<rparr>) entry msg)
     = (out = NilWriter)"
  by (simp add: write_panics_def Entry_Errorf_def Logf_def IsLevelEnabled_def)

lemma InitGlobalLogger_first:
  assumes "\<not> globalLoggerOnce w"
  shows "NewLogger env cfg = Inr l \<Longrightarrow>
           InitGlobalLogger env cfg w = (w\<lparr>globalLogger := Some l, globalLoggerOnce := True\<rparr>, Returned ())"
    and "NewLogger env cfg = Inl err \<Longrightarrow> Output cfg \<noteq> NilWriter \<Longrightarrow>
           globalLogger (fst (InitGlobalLogger env cfg w))
             = Some \<lparr>Logger = (standardLogger w)\<lparr>Out := Output cfg, level := ErrorLevel\<rparr>, config = cfg\<rparr>
         \<and> snd (InitGlobalLogger env cfg w) = Returned ()
         \<and> standardLogger (fst (InitGlobalLogger env cfg w))
             = (standardLogger w)\<lparr>Out := Output cfg, level := ErrorLevel\<rparr>
         \<and> reported (fst (InitGlobalLogger env cfg w))
             = reported w @
               [\<lparr>target = Output cfg, renderer = Formatter (standardLogger w),
                 written = fire_hooks env (Hooks (standardLogger w))
                   \<lparr>Data = Map.empty, Context = None, entryLevel = ErrorLevel,
                    Message = ''Failed to initialize custom logger: '' @ err
                              @ ''. Falling back to basic logrus.''\<rparr>\<rparr>]"
    and "NewLogger env cfg = Inl err \<Longrightarrow> Output cfg = NilWriter \<Longrightarrow>
           InitGlobalLogger env cfg w
             = (w\<lparr>standardLogger := (standardLogger w)\<lparr>Out := NilWriter, level := ErrorLevel\<rparr>,
                  globalLoggerOnce := True\<rparr>, Panicked)"
  using assms
  by (simp_all add: InitGlobalLogger_def Once_Do_def fall_back_def Let_def write_panics_def
      Entry_Errorf_def Logf_def IsLevelEnabled_def NewEntry_def)

text \<open>
  C3, as stated, fails: when the logger cannot be built from the first configuration,
  the singleton is the fallback. The first configuration asks for the debug level and
  JSON; after both calls the global logger is at the error level with the text renderer.
\<close>

theorem fallback_logger_does_not_match_first_config:
  "map_option (level \<circ> Logger)
     (globalLogger (fst (InitGlobalLogger sample_Env DefaultConfig
        (fst (InitGlobalLogger sample_Env unopenable_config process_start))))) = Some ErrorLevel
 \<and> Level unopenable_config = DebugLevel \<and> ErrorLevel \<noteq> DebugLevel
 \<and> map_option (is_JSON \<circ> Formatter \<circ> Logger)
     (globalLogger (fst (InitGlobalLogger sample_Env DefaultConfig
        (fst (InitGlobalLogger sample_Env unopenable_config process_start))))) = Some False
 \<and> Format unopenable_config = FormatJSON"
proof -
  have n: "NewLogger sample_Env unopenable_config
             = Inl ''open /var/log/missing/app.log: no such file or directory''"
    by (simp add: NewLogger_def unopenable_config_def DefaultConfig_def sample_Env_def refuse_open_def)
  have o: "\<not> globalLoggerOnce process_start"
    by (simp add: process_start_def)
  have out: "Output unopenable_config \<noteq> NilWriter"
    by (simp add: unopenable_config_def DefaultConfig_def)
  have "InitGlobalLogger sample_Env DefaultConfig (fst (InitGlobalLogger sample_Env unopenable_config process_start))
          = (fst (InitGlobalLogger sample_Env unopenable_config process_start), Returned ())"
    by (simp add: InitGlobalLogger_ignored InitGlobalLogger_shuts)
  then show ?thesis
    using InitGlobalLogger_first(2) [OF o n out]
    by (simp add: process_start_def fresh_Engine_def unopenable_config_def DefaultConfig_def Level_defs)
qed

text \<open>
  C3, amended. For every pair of calls \<open>InitGlobalLogger(c1)\<close> and then
  \<open>InitGlobalLogger(c2)\<close>, with any configurations and from any state of the process, the
  second call returns and changes nothing, and neither does a later \<open>GetGlobalLogger\<close>,
  which returns the singleton as the first call left it. When the first call is the
  first use of the once gate, there are three cases. When \<open>NewLogger(c1)\<close> succeeds, the
  global logger afterwards is that logger: its level is the level of \<open>c1\<close> and it renders
  JSON exactly when \<open>c1\<close> asks for it. When \<open>NewLogger(c1)\<close> fails and the output of \<open>c1\<close> is
  not nil, the global logger is the fallback: the standard logger with the output of
  \<open>c1\<close>, at the error level, with \<open>c1\<close> as its stored configuration. When \<open>NewLogger(c1)\<close>
  fails and the output of \<open>c1\<close> is nil, the first call panics while reporting the
  failure: the standard logger is left with the nil output at the error level, the gate
  is shut, and the global logger stays as it was, which is nil at the start of a process.
  In no case does anything depend on \<open>c2\<close>.
\<close>

theorem InitGlobalLogger_only_first_call:
  "InitGlobalLogger env2 c2 (fst (InitGlobalLogger env1 c1 w))
     = (fst (InitGlobalLogger env1 c1 w), Returned ())
 \<and> GetGlobalLogger env2 (fst (InitGlobalLogger env1 c1 w))
     = (fst (InitGlobalLogger env1 c1 w), Returned (globalLogger (fst (InitGlobalLogger env1 c1 w))))
 \<and> (\<not> globalLoggerOnce w \<longrightarrow>
      (case NewLogger env1 c1 of
         Inr l \<Rightarrow>
           InitGlobalLogger env1 c1 w = (w\<lparr>globalLogger := Some l, globalLoggerOnce := True\<rparr>, Returned ())
         \<and> globalLogger (fst (InitGlobalLogger env2 c2 (fst (InitGlobalLogger env1 c1 w)))) = Some l
         \<and> level (Logger l) = Level c1
         \<and> is_JSON (Formatter (Logger l)) = (EnableJSON c1 \<or> Format c1 = FormatJSON)
       | Inl err \<Rightarrow>
           if Output c1 = NilWriter
           then InitGlobalLogger env1 c1 w
                  = (w\<lparr>standardLogger := (standardLogger w)\<lparr>Out := NilWriter, level := ErrorLevel\<rparr>,
                       globalLoggerOnce := True\<rparr>, Panicked)
              \<and> globalLogger (fst (InitGlobalLogger env2 c2 (fst (InitGlobalLogger env1 c1 w))))
                  = globalLogger w
           else snd (InitGlobalLogger env1 c1 w) = Returned ()
              \<and> globalLogger (fst (InitGlobalLogger env2 c2 (fst (InitGlobalLogger env1 c1 w))))
                  = Some \<lparr>Logger = (standardLogger w)\<lparr>Out := Output c1, level := ErrorLevel\<rparr>,
                          config = c1\<rparr>
              \<and> standardLogger (fst (InitGlobalLogger env1 c1 w))
                  = (standardLogger w)\<lparr>Out := Output c1, level := ErrorLevel\<rparr>
              \<and> reported (fst (InitGlobalLogger env1 c1 w))
                  = reported w @
                    [\<lparr>target = Output c1, renderer = Formatter (standardLogger w),
                      written = fire_hooks env1 (Hooks (standardLogger w))
                        \<lparr>Data = Map.empty, Context = None, entryLevel = ErrorLevel,
                         Message = ''Failed to initialize custom logger: '' @ err
                                   @ ''. Falling back to basic logrus.''\<rparr>\<rparr>]))"
proof -
  have second: "InitGlobalLogger env2 c2 (fst (InitGlobalLogger env1 c1 w))
     = (fst (InitGlobalLogger env1 c1 w), Returned ())"
    by (simp add: InitGlobalLogger_ignored InitGlobalLogger_shuts)
  have getter: "GetGlobalLogger env2 (fst (InitGlobalLogger env1 c1 w))
     = (fst (InitGlobalLogger env1 c1 w), Returned (globalLogger (fst (InitGlobalLogger env1 c1 w))))"
    by (simp add: GetGlobalLogger_ignored InitGlobalLogger_shuts)
  have first: "\<not> globalLoggerOnce w \<longrightarrow>
      (case NewLogger env1 c1 of
         Inr l \<Rightarrow>
           InitGlobalLogger env1 c1 w = (w\<lparr>globalLogger := Some l, globalLoggerOnce := True\<rparr>, Returned ())
         \<and> globalLogger (fst (InitGlobalLogger env1 c1 w)) = Some l
         \<and> level (Logger l) = Level c1
         \<and> is_JSON (Formatter (Logger l)) = (EnableJSON c1 \<or> Format c1 = FormatJSON)
       | Inl err \<Rightarrow>
           if Output c1 = NilWriter
           then InitGlobalLogger env1 c1 w
                  = (w\<lparr>standardLogger := (standardLogger w)\<lparr>Out := NilWriter, level := ErrorLevel\<rparr>,
                       globalLoggerOnce := True\<rparr>, Panicked)
              \<and> globalLogger (fst (InitGlobalLogger env1 c1 w)) = globalLogger w
           else snd (InitGlobalLogger env1 c1 w) = Returned ()
              \<and> globalLogger (fst (InitGlobalLogger env1 c1 w))
                  = Some \<lparr>Logger = (standardLogger w)\<lparr>Out := Output c1, level := ErrorLevel\<rparr>,
                          config = c1\<rparr>
              \<and> standardLogger (fst (InitGlobalLogger env1 c1 w))
                  = (standardLogger w)\<lparr>Out := Output c1, level := ErrorLevel\<rparr>
              \<and> reported (fst (InitGlobalLogger env1 c1 w))
                  = reported w @
                    [\<lparr>target = Output c1, renderer = Formatter (standardLogger w),
                      written = fire_hooks env1 (Hooks (standardLogger w))
                        \<lparr>Data = Map.empty, Context = None, entryLevel = ErrorLevel,
                         Message = ''Failed to initialize custom logger: '' @ err
                                   @ ''. Falling back to basic logrus.''\<rparr>\<rparr>])"
  proof (cases "NewLogger env1 c1")
    case (Inl err)
    show ?thesis
    proof (cases "Output c1 = NilWriter")
      case True
      then show ?thesis
        using Inl InitGlobalLogger_first(3) [of w env1 c1 err] by simp
    next
      case False
      then show ?thesis
        using Inl InitGlobalLogger_first(2) [of w env1 c1 err] by simp
    qed
  next
    case (Inr l)
    then show ?thesis
      using InitGlobalLogger_first(1) [of w env1 c1 l] NewLogger_Logger(1,2) [OF Inr] by simp
  qed
  show ?thesis unfolding second fst_conv using second getter first by simp
qed

text \<open>
  From the start of a process: the first call asks for the debug level and, with the
  default format, JSON; the second asks for the default level and the text format. And
  with a first configuration whose file cannot be opened and whose output is nil: the
  first call panics, and after the second the global logger is still nil.
\<close>

theorem InitGlobalLogger_only_first_call_witness:
  "\<not> globalLoggerOnce process_start
 \<and> NewLogger sample_Env (DefaultConfig\<lparr>Level := DebugLevel\<rparr>)
     = Inr (default_logger\<lparr>Logger := (Logger default_logger)\<lparr>level := DebugLevel\<rparr>,
                          config := DefaultConfig\<lparr>Level := DebugLevel\<rparr>\<rparr>)
 \<and> map_option (level \<circ> Logger)
     (globalLogger (fst (InitGlobalLogger sample_Env (DefaultConfig\<lparr>Format := FormatText\<rparr>)
        (fst (InitGlobalLogger sample_Env (DefaultConfig\<lparr>Level := DebugLevel\<rparr>) process_start)))))
     = Some DebugLevel
 \<and> map_option (is_JSON \<circ> Formatter \<circ> Logger)
     (globalLogger (fst (InitGlobalLogger sample_Env (DefaultConfig\<lparr>Format := FormatText\<rparr>)
        (fst (InitGlobalLogger sample_Env (DefaultConfig\<lparr>Level := DebugLevel\<rparr>) process_start)))))
     = Some True
 \<and> NewLogger sample_Env unopenable_silent_config
     = Inl ''open /var/log/missing/app.log: no such file or directory''
 \<and> Output unopenable_silent_config = NilWriter
 \<and> snd (InitGlobalLogger sample_Env unopenable_silent_config process_start) = Panicked
 \<and> globalLogger (fst (InitGlobalLogger sample_Env DefaultConfig
        (fst (InitGlobalLogger sample_Env unopenable_silent_config process_start)))) = None"
proof -
  have o: "\<not> globalLoggerOnce process_start"
    by (simp add: process_start_def)
  have n: "NewLogger sample_Env (DefaultConfig\<lparr>Level := DebugLevel\<rparr>)
     = Inr (default_logger\<lparr>Logger := (Logger default_logger)\<lparr>level := DebugLevel\<rparr>,
                          config := DefaultConfig\<lparr>Level := DebugLevel\<rparr>\<rparr>)"
    by (simp add: NewLogger_def sample_Env_def fresh_Engine_def default_logger_def
        DefaultConfig_def FormatJSON_def)
  have m: "NewLogger sample_Env unopenable_silent_config
     = Inl ''open /var/log/missing/app.log: no such file or directory''"
    by (simp add: NewLogger_def unopenable_silent_config_def unopenable_config_def DefaultConfig_def
        sample_Env_def refuse_open_def)
  have nil: "Output unopenable_silent_config = NilWriter"
    by (simp add: unopenable_silent_config_def)
  have g0: "globalLogger process_start = None"
    by (simp add: process_start_def)
  note first = InitGlobalLogger_only_first_call [of sample_Env "DefaultConfig\<lparr>Format := FormatText\<rparr>"
      sample_Env "DefaultConfig\<lparr>Level := DebugLevel\<rparr>" process_start,
      THEN conjunct2, THEN conjunct2, rule_format, OF o, unfolded n sum.case]
  from first [THEN conjunct2, THEN conjunct1]
  have g: "globalLogger (fst (InitGlobalLogger sample_Env (DefaultConfig\<lparr>Format := FormatText\<rparr>)
        (fst (InitGlobalLogger sample_Env (DefaultConfig\<lparr>Level := DebugLevel\<rparr>) process_start))))
     = Some (default_logger\<lparr>Logger := (Logger default_logger)\<lparr>level := DebugLevel\<rparr>,
                          config := DefaultConfig\<lparr>Level := DebugLevel\<rparr>\<rparr>)" .
  note failed = InitGlobalLogger_only_first_call [of sample_Env DefaultConfig
      sample_Env unopenable_silent_config process_start,
      THEN conjunct2, THEN conjunct2, rule_format, OF o, unfolded m sum.case nil simp_thms if_True]
  from failed [THEN conjunct1]
  have p: "snd (InitGlobalLogger sample_Env unopenable_silent_config process_start) = Panicked"
    by simp
  from failed [THEN conjunct2] g0
  have q: "globalLogger (fst (InitGlobalLogger sample_Env DefaultConfig
        (fst (InitGlobalLogger sample_Env unopenable_silent_config process_start)))) = None"
    by simp
  show ?thesis
    unfolding g using o n m nil p q by (simp add: default_logger_def)
qed


end
